theory Spec2Isabelle
  imports Main
begin

section \<open>Edit actions of maxwell/actions.py\<close>

text \<open>
  The module declares thirteen classes. Ten of them are decorated with
  \<^verbatim>\<open>@dataclasses.dataclass(frozen=True, eq=True)\<close>; the methods that the decorator
  adds to a class (\<^verbatim>\<open>__init__\<close>, \<^verbatim>\<open>__repr__\<close>, \<^verbatim>\<open>__eq__\<close>, \<^verbatim>\<open>__hash__\<close>,
  \<^verbatim>\<open>__setattr__\<close>, \<^verbatim>\<open>__delattr__\<close>) are part of the program and are modelled
  next to the methods written in the file. Objects live in a store, so that
  identity (\<^verbatim>\<open>is\<close>) and equality (\<^verbatim>\<open>==\<close>) are different things, as in
  Python.

  Payloads are annotated \<^verbatim>\<open>Any\<close>. A payload of the model is a Python \<^verbatim>\<open>str\<close>
  (\<open>PyStr\<close>), an atom of a type \<open>'a\<close> with a reflexive value equality (\<open>Atom\<close>: a
  token id, a phoneme), or a float NaN object (\<open>PyNaN\<close>), the payload whose own
  \<^verbatim>\<open>==\<close> is not reflexive. Payloads that are mutable or unhashable (a list) are
  outside the model.
\<close>

subsection \<open>Values and exceptions\<close>

text \<open>
  The number in \<open>PyNaN i\<close> is the identity of the float object: \<open>PyNaN i\<close> and
  \<open>PyNaN j\<close> are the same object when \<open>i = j\<close> and two NaN objects otherwise.
\<close>

datatype 'a pyval = PyStr string | Atom 'a | PyNaN nat

text \<open>
  The payload's own \<^verbatim>\<open>x == y\<close> and \<^verbatim>\<open>x != y\<close>: a NaN is unequal to
  everything, itself included; strings and atoms compare by value; and
  \<^verbatim>\<open>!=\<close> is the negation of \<^verbatim>\<open>==\<close> for each of these types.
\<close>

definition val_eq :: "'a pyval \<Rightarrow> 'a pyval \<Rightarrow> bool" where
  "val_eq x y =
     (case x of
        PyNaN _ \<Rightarrow> False
      | _ \<Rightarrow> (case y of PyNaN _ \<Rightarrow> False | _ \<Rightarrow> x = y))"

definition val_ne :: "'a pyval \<Rightarrow> 'a pyval \<Rightarrow> bool" where
  "val_ne x y = (\<not> val_eq x y)"

text \<open>
  How a tuple compares two of its elements (\<^verbatim>\<open>PyObject_RichCompareBool\<close>): the
  same object counts as equal without asking \<^verbatim>\<open>==\<close>, any other pair is asked
  \<^verbatim>\<open>==\<close>. For strings and atoms the same object is an equal value, so the
  identity test decides nothing there; for two NaN it decides everything.
  Two tuples are equal when they have the same length and their elements compare
  equal in this sense.
\<close>

definition same_or_equal :: "'a pyval \<Rightarrow> 'a pyval \<Rightarrow> bool" where
  "same_or_equal x y =
     (case (x, y) of
        (PyNaN i, PyNaN j) \<Rightarrow> i = j
      | _ \<Rightarrow> val_eq x y)"

definition tuple_eq :: "'a pyval list \<Rightarrow> 'a pyval list \<Rightarrow> bool" where
  "tuple_eq t1 t2 = list_all2 same_or_equal t1 t2"

text \<open>
  Exceptions are values. \<open>ValueError\<close> carries the message the source formats;
  \<open>FrozenInstanceError\<close> is the exception of the dataclasses module;
  \<open>NoSuchObject\<close> is not a Python exception: it is what the model answers for a
  reference that points outside the store, which no Python program can hold.
\<close>

datatype error =
    ValueError string
  | TypeError
  | AttributeError
  | NotImplementedError
  | FrozenInstanceError
  | NoSuchObject

definition ebind :: "error + 'x \<Rightarrow> ('x \<Rightarrow> error + 'y) \<Rightarrow> error + 'y" where
  "ebind m f = (case m of Inl e \<Rightarrow> Inl e | Inr x \<Rightarrow> f x)"

text \<open>
  What the model takes from the Python runtime without looking inside:
  \<^verbatim>\<open>str\<close> and \<^verbatim>\<open>repr\<close> of a payload, \<^verbatim>\<open>hash\<close> of a payload and of a tuple (a
  function of the hashes of its elements), and the identity-based hash and repr
  that \<^verbatim>\<open>object\<close> provides.
\<close>

record 'a runtime =
  atom_str :: "'a \<Rightarrow> string"
  val_repr :: "'a pyval \<Rightarrow> string"
  val_hash :: "'a pyval \<Rightarrow> int"
  tuple_hash :: "int list \<Rightarrow> int"
  id_hash :: "nat \<Rightarrow> int"
  object_repr :: "string \<Rightarrow> nat \<Rightarrow> string"

definition val_str :: "'a runtime \<Rightarrow> 'a pyval \<Rightarrow> string" where
  "val_str rt v = (case v of PyStr s \<Rightarrow> s | Atom x \<Rightarrow> atom_str rt x | PyNaN _ \<Rightarrow> ''nan'')"

subsection \<open>The class hierarchy\<close>

datatype cls =
    Edit | Start | End | ConditionalEdit | GenerativeEdit
  | ConditionalSub | ConditionalCopy | ConditionalDel | ConditionalIns
  | Sub | Copy | Del | Ins

fun qualname :: "cls \<Rightarrow> string" where
  "qualname Edit = ''Edit''"
| "qualname Start = ''Start''"
| "qualname End = ''End''"
| "qualname ConditionalEdit = ''ConditionalEdit''"
| "qualname GenerativeEdit = ''GenerativeEdit''"
| "qualname ConditionalSub = ''ConditionalSub''"
| "qualname ConditionalCopy = ''ConditionalCopy''"
| "qualname ConditionalDel = ''ConditionalDel''"
| "qualname ConditionalIns = ''ConditionalIns''"
| "qualname Sub = ''Sub''"
| "qualname Copy = ''Copy''"
| "qualname Del = ''Del''"
| "qualname Ins = ''Ins''"

text \<open>
  The base class named in each class statement; \<open>None\<close> for \<open>Edit\<close>, whose base
  \<^verbatim>\<open>abc.ABC\<close> is not a class of the module (it only makes \<^verbatim>\<open>ABCMeta\<close> the
  metaclass of every class below).
\<close>

fun base :: "cls \<Rightarrow> cls option" where
  "base Edit = None"
| "base Start = Some Edit"
| "base End = Some Edit"
| "base ConditionalEdit = Some Edit"
| "base GenerativeEdit = Some Edit"
| "base ConditionalSub = Some ConditionalEdit"
| "base ConditionalCopy = Some ConditionalEdit"
| "base ConditionalDel = Some ConditionalEdit"
| "base ConditionalIns = Some ConditionalEdit"
| "base Sub = Some GenerativeEdit"
| "base Copy = Some Sub"
| "base Del = Some GenerativeEdit"
| "base Ins = Some GenerativeEdit"

text \<open>
  The method resolution order of each class, cut before \<^verbatim>\<open>abc.ABC\<close> and
  \<^verbatim>\<open>object\<close>. Inheritance is single, so the order is the chain of bases
  (\<open>mro_base\<close> below).
\<close>

fun mro :: "cls \<Rightarrow> cls list" where
  "mro Edit = [Edit]"
| "mro Start = [Start, Edit]"
| "mro End = [End, Edit]"
| "mro ConditionalEdit = [ConditionalEdit, Edit]"
| "mro GenerativeEdit = [GenerativeEdit, Edit]"
| "mro ConditionalSub = [ConditionalSub, ConditionalEdit, Edit]"
| "mro ConditionalCopy = [ConditionalCopy, ConditionalEdit, Edit]"
| "mro ConditionalDel = [ConditionalDel, ConditionalEdit, Edit]"
| "mro ConditionalIns = [ConditionalIns, ConditionalEdit, Edit]"
| "mro Sub = [Sub, GenerativeEdit, Edit]"
| "mro Copy = [Copy, Sub, GenerativeEdit, Edit]"
| "mro Del = [Del, GenerativeEdit, Edit]"
| "mro Ins = [Ins, GenerativeEdit, Edit]"

text \<open>
  Attribute lookup on a type: the first class of the resolution order whose
  table has an entry. \<open>None\<close> means that no class of the module provides the
  attribute, and Python goes on to \<^verbatim>\<open>object\<close>.
\<close>

fun lookup :: "(cls \<Rightarrow> 'm option) \<Rightarrow> cls list \<Rightarrow> 'm option" where
  "lookup tbl [] = None"
| "lookup tbl (k # ks) = (case tbl k of Some m \<Rightarrow> Some m | None \<Rightarrow> lookup tbl ks)"

text \<open>The classes under the decorator \<^verbatim>\<open>@dataclasses.dataclass(frozen=True, eq=True)\<close>.\<close>

fun is_dataclass :: "cls \<Rightarrow> bool" where
  "is_dataclass Edit = False"
| "is_dataclass ConditionalEdit = False"
| "is_dataclass GenerativeEdit = False"
| "is_dataclass c = True"

text \<open>
  The annotated fields in the body of each class, in order, each with its default
  when it has one. \<open>Copy\<close> declares \<open>old\<close> and \<open>new\<close> again.
\<close>

fun own_fields :: "cls \<Rightarrow> (string \<times> 'a pyval option) list" where
  "own_fields Start = [(''bos'', Some (PyStr ''<BOS>''))]"
| "own_fields End = [(''eos'', Some (PyStr ''<EOS>''))]"
| "own_fields ConditionalSub = [(''new'', None)]"
| "own_fields ConditionalIns = [(''new'', None)]"
| "own_fields Sub = [(''old'', None), (''new'', None)]"
| "own_fields Copy = [(''old'', None), (''new'', None)]"
| "own_fields Del = [(''old'', None)]"
| "own_fields Ins = [(''new'', None)]"
| "own_fields c = []"

text \<open>A Python dict as an association list in insertion order.\<close>

fun dict_set :: "'k \<Rightarrow> 'v \<Rightarrow> ('k \<times> 'v) list \<Rightarrow> ('k \<times> 'v) list" where
  "dict_set k v [] = [(k, v)]"
| "dict_set k v ((k', v') # kvs) =
     (if k' = k then (k, v) # kvs else (k', v') # dict_set k v kvs)"

fun dict_del :: "'k \<Rightarrow> ('k \<times> 'v) list \<Rightarrow> ('k \<times> 'v) list" where
  "dict_del k [] = []"
| "dict_del k ((k', v') # kvs) = (if k' = k then kvs else (k', v') # dict_del k kvs)"

text \<open>
  The fields of a dataclass: the decorator walks the resolution order from the
  farthest base to the class itself and stores the fields of every dataclass
  on the way into one dict, so a field declared again keeps its first position.
\<close>

definition dataclass_fields :: "cls \<Rightarrow> (string \<times> 'a pyval option) list" where
  "dataclass_fields c =
     foldl (\<lambda>d k. foldl (\<lambda>d' (n, dflt). dict_set n dflt d') d (own_fields k))
       [] (filter is_dataclass (rev (mro c)))"

text \<open>
  A class is abstract when a name marked \<^verbatim>\<open>@abc.abstractmethod\<close> still resolves
  to the marked function. The only marked function is
  \<^verbatim>\<open>GenerativeEdit.conditional_counterpart\<close>; the table says which classes put
  a \<^verbatim>\<open>conditional_counterpart\<close> into their namespace and whether it is the marked one.
\<close>

fun cc_is_abstract :: "cls \<Rightarrow> bool option" where
  "cc_is_abstract ConditionalEdit = Some False"
| "cc_is_abstract GenerativeEdit = Some True"
| "cc_is_abstract Sub = Some False"
| "cc_is_abstract Copy = Some False"
| "cc_is_abstract Del = Some False"
| "cc_is_abstract Ins = Some False"
| "cc_is_abstract c = None"

definition is_abstract :: "cls \<Rightarrow> bool" where
  "is_abstract c = (lookup cc_is_abstract (mro c) = Some True)"

subsection \<open>Objects and the store\<close>

text \<open>
  An object is its class and its instance \<^verbatim>\<open>__dict__\<close>. A reference is an index
  into the store; a new object goes to the end of the store, and its reference
  is an index no older object has.
\<close>

record 'a obj =
  ocls :: cls
  odict :: "(string \<times> 'a pyval) list"

type_synonym 'a heap = "'a obj list"

type_synonym ref = nat

definition deref :: "'a heap \<Rightarrow> ref \<Rightarrow> error + 'a obj" where
  "deref h a = (if a < length h then Inr (h ! a) else Inl NoSuchObject)"

text \<open>
  Reading a data attribute: the instance dict first, then the class attributes
  along the resolution order. The decorator leaves the default of a field as a
  class attribute (\<^verbatim>\<open>Start.bos\<close>, \<^verbatim>\<open>End.eos\<close>); the module has no other
  class-level data.
\<close>

definition class_attr :: "cls \<Rightarrow> string \<Rightarrow> 'a pyval option" where
  "class_attr c n = lookup (\<lambda>k. case map_of (own_fields k) n of Some (Some v) \<Rightarrow> Some v | _ \<Rightarrow> None) (mro c)"

definition getattr :: "'a heap \<Rightarrow> ref \<Rightarrow> string \<Rightarrow> error + 'a pyval" where
  "getattr h a n =
     ebind (deref h a) (\<lambda>ob.
       case map_of (odict ob) n of
         Some v \<Rightarrow> Inr v
       | None \<Rightarrow> (case class_attr (ocls ob) n of Some v \<Rightarrow> Inr v | None \<Rightarrow> Inl AttributeError))"

text \<open>\<^verbatim>\<open>object.__setattr__\<close> and \<^verbatim>\<open>object.__delattr__\<close>: they write the instance dict.\<close>

definition object_setattr :: "'a heap \<Rightarrow> ref \<Rightarrow> string \<Rightarrow> 'a pyval \<Rightarrow> error + 'a heap" where
  "object_setattr h a n v =
     ebind (deref h a) (\<lambda>ob. Inr (h[a := ob\<lparr>odict := dict_set n v (odict ob)\<rparr>]))"

definition object_delattr :: "'a heap \<Rightarrow> ref \<Rightarrow> string \<Rightarrow> error + 'a heap" where
  "object_delattr h a n =
     ebind (deref h a) (\<lambda>ob.
       if n \<in> fst ` set (odict ob) then Inr (h[a := ob\<lparr>odict := dict_del n (odict ob)\<rparr>])
       else Inl AttributeError)"

subsection \<open>Frozen instances\<close>

text \<open>
  With \<^verbatim>\<open>frozen=True\<close> the decorator gives the class \<open>k\<close> the methods
  \<^verbatim>\<open>
  def __setattr__(self, name, value):
      if type(self) is cls or name in {<the fields of cls>}:
          raise FrozenInstanceError(f"cannot assign to field {name!r}")
      super(cls, self).__setattr__(name, value)
  \<close>
  and the same for \<^verbatim>\<open>__delattr__\<close>. The recursion below walks the resolution
  order of the object's type: a class that is not a dataclass has no
  \<^verbatim>\<open>__setattr__\<close> of its own and is passed over, a dataclass runs the test and
  hands on to \<^verbatim>\<open>super\<close>, and the end of the list is \<^verbatim>\<open>object\<close>.
\<close>

fun setattr_from :: "cls list \<Rightarrow> 'a heap \<Rightarrow> ref \<Rightarrow> string \<Rightarrow> 'a pyval \<Rightarrow> error + 'a heap" where
  "setattr_from [] h a n v = object_setattr h a n v"
| "setattr_from (k # ks) h a n v =
     (if is_dataclass k then
        ebind (deref h a) (\<lambda>ob.
          if ocls ob = k \<or> n \<in> fst ` set (dataclass_fields k :: (string \<times> 'a pyval option) list)
          then Inl FrozenInstanceError
          else setattr_from ks h a n v)
      else setattr_from ks h a n v)"

fun delattr_from :: "cls list \<Rightarrow> 'a heap \<Rightarrow> ref \<Rightarrow> string \<Rightarrow> error + 'a heap" where
  "delattr_from [] h a n = object_delattr h a n"
| "delattr_from (k # ks) h a n =
     (if is_dataclass k then
        ebind (deref h a) (\<lambda>ob.
          if ocls ob = k \<or> n \<in> fst ` set (dataclass_fields k :: (string \<times> 'a pyval option) list)
          then Inl FrozenInstanceError
          else delattr_from ks h a n)
      else delattr_from ks h a n)"

text \<open>The statements \<^verbatim>\<open>x.n = v\<close> and \<^verbatim>\<open>del x.n\<close>.\<close>

definition setattr :: "'a heap \<Rightarrow> ref \<Rightarrow> string \<Rightarrow> 'a pyval \<Rightarrow> error + 'a heap" where
  "setattr h a n v = ebind (deref h a) (\<lambda>ob. setattr_from (mro (ocls ob)) h a n v)"

definition delattr :: "'a heap \<Rightarrow> ref \<Rightarrow> string \<Rightarrow> error + 'a heap" where
  "delattr h a n = ebind (deref h a) (\<lambda>ob. delattr_from (mro (ocls ob)) h a n)"

subsection \<open>Construction\<close>

text \<open>
  Binding positional arguments to the parameters of the generated
  \<^verbatim>\<open>__init__(self, f1, ..., fn)\<close>: too many arguments, or a parameter without
  default left over, is a \<^verbatim>\<open>TypeError\<close>.
\<close>

fun bind_args :: "(string \<times> 'a pyval option) list \<Rightarrow> 'a pyval list \<Rightarrow> error + (string \<times> 'a pyval) list" where
  "bind_args [] [] = Inr []"
| "bind_args [] (v # vs) = Inl TypeError"
| "bind_args ((n, d) # fs) [] =
     (case d of
        None \<Rightarrow> Inl TypeError
      | Some v \<Rightarrow> ebind (bind_args fs []) (\<lambda>r. Inr ((n, v) # r)))"
| "bind_args ((n, d) # fs) (v # vs) = ebind (bind_args fs vs) (\<lambda>r. Inr ((n, v) # r))"

text \<open>
  The body of the generated \<^verbatim>\<open>__init__\<close> of a frozen dataclass stores each field
  with \<^verbatim>\<open>object.__setattr__(self, name, value)\<close>, in field order.
\<close>

fun init_fields :: "'a heap \<Rightarrow> ref \<Rightarrow> (string \<times> 'a pyval) list \<Rightarrow> error + 'a heap" where
  "init_fields h a [] = Inr h"
| "init_fields h a ((n, v) # kvs) = ebind (object_setattr h a n v) (\<lambda>h'. init_fields h' a kvs)"

text \<open>
  \<^verbatim>\<open>
  def __post_init__(self):                       # class Copy
      if self.old != self.new:
          raise ValueError(f"Copy: old={self.old} != new={self.new}")
  \<close>
\<close>

definition Copy_post_init :: "'a runtime \<Rightarrow> 'a heap \<Rightarrow> ref \<Rightarrow> error + unit" where
  "Copy_post_init rt h self =
     ebind (getattr h self ''old'') (\<lambda>old.
     ebind (getattr h self ''new'') (\<lambda>new.
       if val_ne old new
       then Inl (ValueError (''Copy: old='' @ val_str rt old @ '' != new='' @ val_str rt new))
       else Inr ()))"

fun post_init_table :: "cls \<Rightarrow> ('a runtime \<Rightarrow> 'a heap \<Rightarrow> ref \<Rightarrow> error + unit) option" where
  "post_init_table Copy = Some Copy_post_init"
| "post_init_table c = None"

text \<open>
  The generated \<^verbatim>\<open>__init__\<close> of the dataclass \<open>k\<close>. The decorator adds the call
  \<^verbatim>\<open>self.__post_init__()\<close> when \<open>k\<close> has the attribute at decoration time; the
  call itself is resolved on the type of \<open>self\<close>.
\<close>

definition dataclass_init :: "cls \<Rightarrow> 'a runtime \<Rightarrow> 'a heap \<Rightarrow> ref \<Rightarrow> 'a pyval list \<Rightarrow> error + 'a heap" where
  "dataclass_init k rt h self args =
     ebind (bind_args (dataclass_fields k) args) (\<lambda>kvs.
     ebind (init_fields h self kvs) (\<lambda>h'.
       case lookup (post_init_table :: cls \<Rightarrow> ('a runtime \<Rightarrow> 'a heap \<Rightarrow> ref \<Rightarrow> error + unit) option) (mro k) of
         None \<Rightarrow> Inr h'
       | Some _ \<Rightarrow>
           ebind (deref h' self) (\<lambda>ob.
             case lookup post_init_table (mro (ocls ob)) of
               None \<Rightarrow> Inl AttributeError
             | Some m \<Rightarrow> ebind (m rt h' self) (\<lambda>_. Inr h'))))"

fun init_table :: "cls \<Rightarrow> ('a runtime \<Rightarrow> 'a heap \<Rightarrow> ref \<Rightarrow> 'a pyval list \<Rightarrow> error + 'a heap) option" where
  "init_table c = (if is_dataclass c then Some (dataclass_init c) else None)"

text \<open>
  The call \<^verbatim>\<open>C(*args)\<close>: \<^verbatim>\<open>object.__new__\<close> refuses an abstract class, the new
  object starts with an empty dict, and \<^verbatim>\<open>__init__\<close> is resolved on \<open>C\<close>
  (\<^verbatim>\<open>object.__init__\<close> takes no argument). When \<^verbatim>\<open>__init__\<close> raises, the caller gets
  the exception and no reference: the store it goes on with is the one it had.
\<close>

definition construct :: "'a runtime \<Rightarrow> 'a heap \<Rightarrow> cls \<Rightarrow> 'a pyval list \<Rightarrow> error + (ref \<times> 'a heap)" where
  "construct rt h c args =
     (if is_abstract c then Inl TypeError
      else
        let self = length h; h0 = h @ [\<lparr>ocls = c, odict = []\<rparr>] in
        case lookup init_table (mro c) of
          None \<Rightarrow> (if args = [] then Inr (self, h0) else Inl TypeError)
        | Some m \<Rightarrow> ebind (m rt h0 self args) (\<lambda>h'. Inr (self, h')))"

subsection \<open>The conditional counterpart\<close>

text \<open>
  \<^verbatim>\<open>
  class ConditionalEdit(Edit):
      def conditional_counterpart(self) -> Edit:
          return self
  class GenerativeEdit(Edit):
      @abc.abstractmethod
      def conditional_counterpart(self) -> ConditionalEdit:
          raise NotImplementedError
  class Sub(GenerativeEdit):
      def conditional_counterpart(self): return ConditionalSub(self.new)
  class Copy(Sub):
      def conditional_counterpart(self): return ConditionalCopy()
  class Del(GenerativeEdit):
      def conditional_counterpart(self): return ConditionalDel()
  class Ins(GenerativeEdit):
      def conditional_counterpart(self): return ConditionalIns(self.new)
  \<close>
  A method takes the store and \<open>self\<close> and returns a reference and the store
  after the call.
\<close>

definition ConditionalEdit_conditional_counterpart ::
    "'a runtime \<Rightarrow> 'a heap \<Rightarrow> ref \<Rightarrow> error + (ref \<times> 'a heap)" where
  "ConditionalEdit_conditional_counterpart rt h self = Inr (self, h)"

definition GenerativeEdit_conditional_counterpart ::
    "'a runtime \<Rightarrow> 'a heap \<Rightarrow> ref \<Rightarrow> error + (ref \<times> 'a heap)" where
  "GenerativeEdit_conditional_counterpart rt h self = Inl NotImplementedError"

definition Sub_conditional_counterpart ::
    "'a runtime \<Rightarrow> 'a heap \<Rightarrow> ref \<Rightarrow> error + (ref \<times> 'a heap)" where
  "Sub_conditional_counterpart rt h self =
     ebind (getattr h self ''new'') (\<lambda>new. construct rt h ConditionalSub [new])"

definition Copy_conditional_counterpart ::
    "'a runtime \<Rightarrow> 'a heap \<Rightarrow> ref \<Rightarrow> error + (ref \<times> 'a heap)" where
  "Copy_conditional_counterpart rt h self = construct rt h ConditionalCopy []"

definition Del_conditional_counterpart ::
    "'a runtime \<Rightarrow> 'a heap \<Rightarrow> ref \<Rightarrow> error + (ref \<times> 'a heap)" where
  "Del_conditional_counterpart rt h self = construct rt h ConditionalDel []"

definition Ins_conditional_counterpart ::
    "'a runtime \<Rightarrow> 'a heap \<Rightarrow> ref \<Rightarrow> error + (ref \<times> 'a heap)" where
  "Ins_conditional_counterpart rt h self =
     ebind (getattr h self ''new'') (\<lambda>new. construct rt h ConditionalIns [new])"

fun cc_table :: "cls \<Rightarrow> ('a runtime \<Rightarrow> 'a heap \<Rightarrow> ref \<Rightarrow> error + (ref \<times> 'a heap)) option" where
  "cc_table ConditionalEdit = Some ConditionalEdit_conditional_counterpart"
| "cc_table GenerativeEdit = Some GenerativeEdit_conditional_counterpart"
| "cc_table Sub = Some Sub_conditional_counterpart"
| "cc_table Copy = Some Copy_conditional_counterpart"
| "cc_table Del = Some Del_conditional_counterpart"
| "cc_table Ins = Some Ins_conditional_counterpart"
| "cc_table c = None"

text \<open>
  The call \<^verbatim>\<open>e.conditional_counterpart()\<close>: the method is looked up on the type
  of \<open>e\<close>; \<^verbatim>\<open>object\<close> has no such method, so a class without one in its
  resolution order (\<open>Edit\<close>, \<open>Start\<close>, \<open>End\<close>) answers \<^verbatim>\<open>AttributeError\<close>.
\<close>

definition conditional_counterpart :: "'a runtime \<Rightarrow> 'a heap \<Rightarrow> ref \<Rightarrow> error + (ref \<times> 'a heap)" where
  "conditional_counterpart rt h e =
     ebind (deref h e) (\<lambda>ob.
       case lookup cc_table (mro (ocls ob)) of
         None \<Rightarrow> Inl AttributeError
       | Some m \<Rightarrow> m rt h e)"

subsection \<open>Equality\<close>

text \<open>The tuple \<^verbatim>\<open>(self.f1, ..., self.fn)\<close> that the generated methods build.\<close>

fun read_fields :: "'a heap \<Rightarrow> ref \<Rightarrow> string list \<Rightarrow> error + 'a pyval list" where
  "read_fields h a [] = Inr []"
| "read_fields h a (n # ns) =
     ebind (getattr h a n) (\<lambda>v. ebind (read_fields h a ns) (\<lambda>vs. Inr (v # vs)))"

text \<open>
  With \<^verbatim>\<open>eq=True\<close> the decorator gives the class
  \<^verbatim>\<open>
  def __eq__(self, other):
      if other.__class__ is self.__class__:
          return (self.f1, ..., self.fn) == (other.f1, ..., other.fn)
      return NotImplemented
  \<close>
  The result \<open>None\<close> stands for \<^verbatim>\<open>NotImplemented\<close>. This is the method that Python
  3.7 to 3.12 generate. (Later versions generate a comparison field by field with
  the payload's \<^verbatim>\<open>==\<close>; the two forms can differ only on a payload that is
  unequal to itself.)
\<close>

definition dataclass_eq :: "cls \<Rightarrow> 'a heap \<Rightarrow> ref \<Rightarrow> ref \<Rightarrow> error + bool option" where
  "dataclass_eq k h self other =
     ebind (deref h other) (\<lambda>oo.
     ebind (deref h self) (\<lambda>so.
       if ocls oo = ocls so then
         ebind (read_fields h self (map fst (dataclass_fields k :: (string \<times> 'a pyval option) list))) (\<lambda>t1.
         ebind (read_fields h other (map fst (dataclass_fields k :: (string \<times> 'a pyval option) list))) (\<lambda>t2.
           Inr (Some (tuple_eq t1 t2))))
       else Inr None))"

fun eq_table :: "cls \<Rightarrow> ('a heap \<Rightarrow> ref \<Rightarrow> ref \<Rightarrow> error + bool option) option" where
  "eq_table c = (if is_dataclass c then Some (dataclass_eq c) else None)"

text \<open>\<^verbatim>\<open>object.__eq__\<close>: true for the same object, \<^verbatim>\<open>NotImplemented\<close> otherwise.\<close>

definition object_eq :: "ref \<Rightarrow> ref \<Rightarrow> error + bool option" where
  "object_eq self other = Inr (if self = other then Some True else None)"

text \<open>\<^verbatim>\<open>type(v).__eq__(v, w)\<close>.\<close>

definition call_eq :: "'a heap \<Rightarrow> ref \<Rightarrow> ref \<Rightarrow> error + bool option" where
  "call_eq h v w =
     ebind (deref h v) (\<lambda>ob.
       case lookup eq_table (mro (ocls ob)) of
         None \<Rightarrow> object_eq v w
       | Some m \<Rightarrow> m h v w)"

text \<open>
  The operator \<^verbatim>\<open>v == w\<close>: when the type of \<open>w\<close> is a proper subclass of the type
  of \<open>v\<close>, the method of \<open>w\<close> is asked first; then the method of \<open>v\<close>; then the
  method of \<open>w\<close> if it has not been asked; when every answer is
  \<^verbatim>\<open>NotImplemented\<close>, the result is the identity test \<^verbatim>\<open>v is w\<close>.
\<close>

definition py_eq :: "'a heap \<Rightarrow> ref \<Rightarrow> ref \<Rightarrow> error + bool" where
  "py_eq h v w =
     ebind (deref h v) (\<lambda>vo.
     ebind (deref h w) (\<lambda>wo.
       let reflected_first = (ocls wo \<noteq> ocls vo \<and> ocls vo \<in> set (mro (ocls wo))) in
       ebind (if reflected_first then call_eq h w v else Inr None) (\<lambda>r0.
         case r0 of
           Some b \<Rightarrow> Inr b
         | None \<Rightarrow>
             ebind (call_eq h v w) (\<lambda>r1.
               case r1 of
                 Some b \<Rightarrow> Inr b
               | None \<Rightarrow>
                   ebind (if reflected_first then Inr None else call_eq h w v) (\<lambda>r2.
                     case r2 of
                       Some b \<Rightarrow> Inr b
                     | None \<Rightarrow> Inr (v = w))))))"

subsection \<open>Hashing\<close>

text \<open>
  With \<^verbatim>\<open>eq=True, frozen=True\<close> the decorator gives the class
  \<^verbatim>\<open>
  def __hash__(self):
      return hash((self.f1, ..., self.fn))
  \<close>
  A class that is not a dataclass keeps \<^verbatim>\<open>object.__hash__\<close>, which depends on
  the identity of the object alone.
\<close>

definition dataclass_hash :: "cls \<Rightarrow> 'a runtime \<Rightarrow> 'a heap \<Rightarrow> ref \<Rightarrow> error + int" where
  "dataclass_hash k rt h self =
     ebind (read_fields h self (map fst (dataclass_fields k :: (string \<times> 'a pyval option) list))) (\<lambda>t.
       Inr (tuple_hash rt (map (val_hash rt) t)))"

fun hash_table :: "cls \<Rightarrow> ('a runtime \<Rightarrow> 'a heap \<Rightarrow> ref \<Rightarrow> error + int) option" where
  "hash_table c = (if is_dataclass c then Some (dataclass_hash c) else None)"

definition py_hash :: "'a runtime \<Rightarrow> 'a heap \<Rightarrow> ref \<Rightarrow> error + int" where
  "py_hash rt h a =
     ebind (deref h a) (\<lambda>ob.
       case lookup hash_table (mro (ocls ob)) of
         None \<Rightarrow> Inr (id_hash rt a)
       | Some m \<Rightarrow> m rt h a)"

text \<open>
  How a dict or a set decides that a stored key \<open>k\<close> is the key \<open>x\<close> being looked
  up: the hashes agree, and \<^verbatim>\<open>k is x or k == x\<close>.
\<close>

definition same_key :: "'a runtime \<Rightarrow> 'a heap \<Rightarrow> ref \<Rightarrow> ref \<Rightarrow> error + bool" where
  "same_key rt h k x =
     ebind (py_hash rt h k) (\<lambda>hk.
     ebind (py_hash rt h x) (\<lambda>hx.
       if hk \<noteq> hx then Inr False
       else if k = x then Inr True
       else py_eq h k x))"

subsection \<open>Display\<close>

text \<open>
  \<^verbatim>\<open>
  class Start(Edit):
      bos: str = "<BOS>"
      def __repr__(self) -> str:
          return self.bos
  class End(Edit):
      eos: str = "<EOS>"
      def __repr__(self) -> str:
          return self.eos
  \<close>
  The decorator adds a \<^verbatim>\<open>__repr__\<close> only to a class that does not define one:
  \<^verbatim>\<open>
  def __repr__(self):
      return self.__class__.__qualname__ + f"(f1={self.f1!r}, ..., fn={self.fn!r})"
  \<close>
\<close>

definition Start_repr :: "'a runtime \<Rightarrow> 'a heap \<Rightarrow> ref \<Rightarrow> error + 'a pyval" where
  "Start_repr rt h self = getattr h self ''bos''"

definition End_repr :: "'a runtime \<Rightarrow> 'a heap \<Rightarrow> ref \<Rightarrow> error + 'a pyval" where
  "End_repr rt h self = getattr h self ''eos''"

fun join_commas :: "string list \<Rightarrow> string" where
  "join_commas [] = []"
| "join_commas [s] = s"
| "join_commas (s # t # ss) = s @ '', '' @ join_commas (t # ss)"

definition dataclass_repr :: "cls \<Rightarrow> 'a runtime \<Rightarrow> 'a heap \<Rightarrow> ref \<Rightarrow> error + 'a pyval" where
  "dataclass_repr k rt h self =
     ebind (deref h self) (\<lambda>ob.
     ebind (read_fields h self (map fst (dataclass_fields k :: (string \<times> 'a pyval option) list))) (\<lambda>t.
       Inr (PyStr (qualname (ocls ob) @ ''('' @
         join_commas (map (\<lambda>(n, v). n @ ''='' @ val_repr rt v)
           (zip (map fst (dataclass_fields k :: (string \<times> 'a pyval option) list)) t)) @ '')''))))"

fun repr_table :: "cls \<Rightarrow> ('a runtime \<Rightarrow> 'a heap \<Rightarrow> ref \<Rightarrow> error + 'a pyval) option" where
  "repr_table Start = Some Start_repr"
| "repr_table End = Some End_repr"
| "repr_table c = (if is_dataclass c then Some (dataclass_repr c) else None)"

text \<open>
  \<^verbatim>\<open>repr(x)\<close> calls \<^verbatim>\<open>type(x).__repr__(x)\<close> and raises \<^verbatim>\<open>TypeError\<close> when the
  result is not a \<^verbatim>\<open>str\<close>. No class of the module defines \<^verbatim>\<open>__str__\<close>, so
  \<^verbatim>\<open>str(x)\<close> is \<^verbatim>\<open>object.__str__\<close>, which returns \<^verbatim>\<open>repr(x)\<close>.
\<close>

definition py_repr :: "'a runtime \<Rightarrow> 'a heap \<Rightarrow> ref \<Rightarrow> error + string" where
  "py_repr rt h a =
     ebind (deref h a) (\<lambda>ob.
       case lookup repr_table (mro (ocls ob)) of
         None \<Rightarrow> Inr (object_repr rt (qualname (ocls ob)) a)
       | Some m \<Rightarrow>
           ebind (m rt h a) (\<lambda>r.
             case r of PyStr s \<Rightarrow> Inr s | Atom _ \<Rightarrow> Inl TypeError | PyNaN _ \<Rightarrow> Inl TypeError))"

definition py_str :: "'a runtime \<Rightarrow> 'a heap \<Rightarrow> ref \<Rightarrow> error + string" where
  "py_str rt h a = py_repr rt h a"

subsection \<open>The operations as steps on the store\<close>

text \<open>
  Everything a client can do with an edit: build one, project it, compare, hash
  and print it, read an attribute, and try to assign or delete one. A step
  returns what the operation returned or raised, and the store after it.
\<close>

datatype 'a op =
    Construct cls "'a pyval list"
  | CondCounterpart ref
  | Equals ref ref
  | Hash ref
  | Repr ref
  | Str ref
  | GetAttr ref string
  | SetAttr ref string "'a pyval"
  | DelAttr ref string

datatype 'a outcome =
    Raised error
  | RetRef ref
  | RetBool bool
  | RetInt int
  | RetStr string
  | RetVal "'a pyval"
  | RetNone

fun exec :: "'a runtime \<Rightarrow> 'a heap \<Rightarrow> 'a op \<Rightarrow> 'a outcome \<times> 'a heap" where
  "exec rt h (Construct c args) =
     (case construct rt h c args of Inl e \<Rightarrow> (Raised e, h) | Inr (a, h') \<Rightarrow> (RetRef a, h'))"
| "exec rt h (CondCounterpart a) =
     (case conditional_counterpart rt h a of Inl e \<Rightarrow> (Raised e, h) | Inr (r, h') \<Rightarrow> (RetRef r, h'))"
| "exec rt h (Equals a b) =
     (case py_eq h a b of Inl e \<Rightarrow> (Raised e, h) | Inr r \<Rightarrow> (RetBool r, h))"
| "exec rt h (Hash a) =
     (case py_hash rt h a of Inl e \<Rightarrow> (Raised e, h) | Inr r \<Rightarrow> (RetInt r, h))"
| "exec rt h (Repr a) =
     (case py_repr rt h a of Inl e \<Rightarrow> (Raised e, h) | Inr r \<Rightarrow> (RetStr r, h))"
| "exec rt h (Str a) =
     (case py_str rt h a of Inl e \<Rightarrow> (Raised e, h) | Inr r \<Rightarrow> (RetStr r, h))"
| "exec rt h (GetAttr a n) =
     (case getattr h a n of Inl e \<Rightarrow> (Raised e, h) | Inr r \<Rightarrow> (RetVal r, h))"
| "exec rt h (SetAttr a n v) =
     (case setattr h a n v of Inl e \<Rightarrow> (Raised e, h) | Inr h' \<Rightarrow> (RetNone, h'))"
| "exec rt h (DelAttr a n) =
     (case delattr h a n of Inl e \<Rightarrow> (Raised e, h) | Inr h' \<Rightarrow> (RetNone, h'))"

text \<open>The store after a sequence of operations; an operation that raises is caught and the next one runs.\<close>

fun run :: "'a runtime \<Rightarrow> 'a heap \<Rightarrow> 'a op list \<Rightarrow> 'a heap" where
  "run rt h [] = h"
| "run rt h (x # xs) = run rt (snd (exec rt h x)) xs"

subsection \<open>Well-formed stores\<close>

text \<open>
  What holds of every object the operations can create: its class is not
  abstract, an instance of a dataclass has exactly the fields of its class in its
  dict, and the two fields of a \<open>Copy\<close> are equal.
\<close>

definition wf_obj :: "'a obj \<Rightarrow> bool" where
  "wf_obj ob =
     (\<not> is_abstract (ocls ob) \<and>
      (is_dataclass (ocls ob) \<longrightarrow>
         map fst (odict ob) = map fst (dataclass_fields (ocls ob) :: (string \<times> 'a pyval option) list)) \<and>
      (ocls ob = Copy \<longrightarrow> map_of (odict ob) ''old'' = map_of (odict ob) ''new''))"

definition wf_heap :: "'a heap \<Rightarrow> bool" where
  "wf_heap h = list_all wf_obj h"

text \<open>A runtime to evaluate the operations on concrete inputs.\<close>

definition example_runtime :: "nat runtime" where
  "example_runtime =
     \<lparr>atom_str = (\<lambda>n. replicate n CHR ''i''),
      val_repr = (\<lambda>v. case v of PyStr s \<Rightarrow> s | Atom n \<Rightarrow> replicate n CHR ''i'' | PyNaN _ \<Rightarrow> ''nan''),
      val_hash = (\<lambda>v. case v of PyStr s \<Rightarrow> int (length s) | Atom n \<Rightarrow> int n | PyNaN i \<Rightarrow> int i),
      tuple_hash = sum_list,
      id_hash = int,
      object_repr = (\<lambda>s n. s @ replicate n CHR ''i'')\<rparr>"

text \<open>
  A client session that builds one object of every instantiable class, and the
  store it leaves (\<open>example_store_run\<close> below).
\<close>

definition example_ops :: "nat op list" where
  "example_ops =
     [Construct Start [], Construct Start [PyStr ''x''], Construct End [],
      Construct ConditionalSub [Atom 1], Construct ConditionalCopy [], Construct ConditionalDel [],
      Construct ConditionalIns [Atom 2], Construct Sub [Atom 3, Atom 1],
      Construct Copy [PyStr ''a'', PyStr ''a''], Construct Copy [PyStr ''a'', PyStr ''a''],
      Construct Del [Atom 3], Construct Ins [Atom 2], Construct ConditionalEdit [],
      Construct Sub [Atom 3, Atom 1], Construct Edit [],
      Construct Sub [PyStr ''a'', PyStr ''a'']]"

definition example_store :: "nat heap" where
  "example_store =
     [\<lparr>ocls = Start, odict = [(''bos'', PyStr ''<BOS>'')]\<rparr>,
      \<lparr>ocls = Start, odict = [(''bos'', PyStr ''x'')]\<rparr>,
      \<lparr>ocls = End, odict = [(''eos'', PyStr ''<EOS>'')]\<rparr>,
      \<lparr>ocls = ConditionalSub, odict = [(''new'', Atom 1)]\<rparr>,
      \<lparr>ocls = ConditionalCopy, odict = []\<rparr>,
      \<lparr>ocls = ConditionalDel, odict = []\<rparr>,
      \<lparr>ocls = ConditionalIns, odict = [(''new'', Atom 2)]\<rparr>,
      \<lparr>ocls = Sub, odict = [(''old'', Atom 3), (''new'', Atom 1)]\<rparr>,
      \<lparr>ocls = Copy, odict = [(''old'', PyStr ''a''), (''new'', PyStr ''a'')]\<rparr>,
      \<lparr>ocls = Copy, odict = [(''old'', PyStr ''a''), (''new'', PyStr ''a'')]\<rparr>,
      \<lparr>ocls = Del, odict = [(''old'', Atom 3)]\<rparr>,
      \<lparr>ocls = Ins, odict = [(''new'', Atom 2)]\<rparr>,
      \<lparr>ocls = ConditionalEdit, odict = []\<rparr>,
      \<lparr>ocls = Sub, odict = [(''old'', Atom 3), (''new'', Atom 1)]\<rparr>,
      \<lparr>ocls = Edit, odict = []\<rparr>,
      \<lparr>ocls = Sub, odict = [(''old'', PyStr ''a''), (''new'', PyStr ''a'')]\<rparr>]"

section \<open>Properties\<close>

subsection \<open>Basic facts about the class table\<close>

lemma ebind_simps [simp]:
  "ebind (Inl e) f = Inl e"
  "ebind (Inr x) f = f x"
  by (simp_all add: ebind_def)

lemma ebind_eq_Inr: "ebind m f = Inr y \<longleftrightarrow> (\<exists>x. m = Inr x \<and> f x = Inr y)"
  by (cases m) simp_all

lemma val_eq_iff: "val_eq x y \<longleftrightarrow> x = y \<and> (\<forall>i. x \<noteq> PyNaN i)"
  by (cases x; cases y) (auto simp: val_eq_def)

lemma val_ne_iff: "val_ne x y \<longleftrightarrow> x \<noteq> y \<or> (\<exists>i. x = PyNaN i)"
  by (auto simp: val_ne_def val_eq_iff)

lemma same_or_equal_iff [simp]: "same_or_equal x y \<longleftrightarrow> x = y"
  by (cases x; cases y) (auto simp: same_or_equal_def val_eq_def)

lemma tuple_eq_iff [simp]: "tuple_eq t1 t2 \<longleftrightarrow> t1 = t2"
  by (simp add: tuple_eq_def list_all2_eq [symmetric] same_or_equal_iff [abs_def])

lemma mro_base: "mro c = c # (case base c of None \<Rightarrow> [] | Some b \<Rightarrow> mro b)"
  by (cases c) simp_all

lemma dataclass_fields_simps [simp]:
  "dataclass_fields Edit = []"
  "dataclass_fields Start = [(''bos'', Some (PyStr ''<BOS>''))]"
  "dataclass_fields End = [(''eos'', Some (PyStr ''<EOS>''))]"
  "dataclass_fields ConditionalEdit = []"
  "dataclass_fields GenerativeEdit = []"
  "dataclass_fields ConditionalSub = [(''new'', None)]"
  "dataclass_fields ConditionalCopy = []"
  "dataclass_fields ConditionalDel = []"
  "dataclass_fields ConditionalIns = [(''new'', None)]"
  "dataclass_fields Sub = [(''old'', None), (''new'', None)]"
  "dataclass_fields Copy = [(''old'', None), (''new'', None)]"
  "dataclass_fields Del = [(''old'', None)]"
  "dataclass_fields Ins = [(''new'', None)]"
  by (simp_all add: dataclass_fields_def)

lemma distinct_field_names: "distinct (map fst (dataclass_fields c))"
  by (cases c) simp_all

lemma is_abstract_iff: "is_abstract c \<longleftrightarrow> c = GenerativeEdit"
  by (cases c) (simp_all add: is_abstract_def)

lemma lookup_dataclass_tables [simp]:
  "lookup init_table (mro c) = (if is_dataclass c then Some (dataclass_init c) else None)"
  "lookup eq_table (mro c) = (if is_dataclass c then Some (dataclass_eq c) else None)"
  "lookup hash_table (mro c) = (if is_dataclass c then Some (dataclass_hash c) else None)"
  by (cases c; simp)+

lemma deref_simps [simp]:
  "a < length h \<Longrightarrow> deref h a = Inr (h ! a)"
  "\<not> a < length h \<Longrightarrow> deref h a = Inl NoSuchObject"
  by (simp_all add: deref_def)

lemma deref_eq_Inr: "deref h a = Inr ob \<longleftrightarrow> a < length h \<and> h ! a = ob"
  by (auto simp: deref_def)

subsection \<open>Reading and writing instance dicts\<close>

lemma dict_set_fresh: "k \<notin> fst ` set d \<Longrightarrow> dict_set k v d = d @ [(k, v)]"
  by (induction d) auto

lemma init_fields_fresh:
  "distinct (map fst kvs) \<Longrightarrow> fst ` set kvs \<inter> fst ` set d = {} \<Longrightarrow>
   init_fields (h @ [\<lparr>ocls = c, odict = d\<rparr>]) (length h) kvs = Inr (h @ [\<lparr>ocls = c, odict = d @ kvs\<rparr>])"
proof (induction kvs arbitrary: d)
  case Nil
  then show ?case by simp
next
  case (Cons kv kvs)
  obtain n v where kv: "kv = (n, v)" by (cases kv)
  from Cons.prems have fresh: "n \<notin> fst ` set d" by (auto simp: kv)
  have step: "object_setattr (h @ [\<lparr>ocls = c, odict = d\<rparr>]) (length h) n v
      = Inr (h @ [\<lparr>ocls = c, odict = d @ [(n, v)]\<rparr>])"
    by (simp add: object_setattr_def dict_set_fresh [OF fresh])
  from Cons.prems have "distinct (map fst kvs)" "fst ` set kvs \<inter> fst ` set (d @ [(n, v)]) = {}"
    by (auto simp: kv)
  from Cons.IH [OF this] show ?case
    by (simp add: kv step)
qed

lemma bind_args_keys: "bind_args fs args = Inr kvs \<Longrightarrow> map fst kvs = map fst fs"
proof (induction fs args arbitrary: kvs rule: bind_args.induct)
  case 1
  then show ?case by simp
next
  case (2 v vs)
  then show ?case by simp
next
  case (3 n d fs)
  then show ?case by (cases d) (auto simp: ebind_eq_Inr)
next
  case (4 n d fs v vs)
  then show ?case by (auto simp: ebind_eq_Inr)
qed

lemma read_fields_all:
  assumes "a < length h" and "distinct (map fst (odict (h ! a)))"
  shows "set ns \<subseteq> fst ` set (odict (h ! a)) \<Longrightarrow>
         read_fields h a ns = Inr (map (\<lambda>n. the (map_of (odict (h ! a)) n)) ns)"
proof (induction ns)
  case Nil
  then show ?case by simp
next
  case (Cons n ns)
  then have "map_of (odict (h ! a)) n \<noteq> None"
    by (simp add: map_of_eq_None_iff)
  then obtain v where "map_of (odict (h ! a)) n = Some v"
    by blast
  with Cons assms show ?case by (simp add: getattr_def)
qed

lemma map_the_map_of: "distinct (map fst d) \<Longrightarrow> map (\<lambda>n. the (map_of d n)) (map fst d) = map snd d"
  by (induction d) (auto simp: rev_image_eqI)

lemma read_fields_dict:
  "a < length h \<Longrightarrow> distinct (map fst (odict (h ! a))) \<Longrightarrow>
   read_fields h a (map fst (odict (h ! a))) = Inr (map snd (odict (h ! a)))"
  using read_fields_all [of a h "map fst (odict (h ! a))"]
  by (simp only: map_the_map_of) simp

lemma wf_read_fields:
  assumes "a < length h" "wf_obj (h ! a)" "is_dataclass (ocls (h ! a))"
  shows "read_fields h a (map fst (dataclass_fields (ocls (h ! a)) :: (string \<times> 'a pyval option) list))
     = Inr (map snd (odict (h ! a) :: (string \<times> 'a pyval) list))"
proof -
  from assms have keys: "map fst (odict (h ! a)) = map fst (dataclass_fields (ocls (h ! a)) :: (string \<times> 'a pyval option) list)"
    by (simp add: wf_obj_def)
  then have "distinct (map fst (odict (h ! a)))" by (simp add: distinct_field_names)
  from read_fields_dict [OF assms(1) this] keys show ?thesis by simp
qed

subsection \<open>What construction returns\<close>

lemma lookup_post_init [simp]:
  "lookup post_init_table (mro c) = (if c = Copy then Some Copy_post_init else None)"
  by (cases c) simp_all

lemma init_fields_new:
  assumes "bind_args (dataclass_fields c) args = Inr kvs"
  shows "init_fields (h @ [\<lparr>ocls = c, odict = []\<rparr>]) (length h) kvs = Inr (h @ [\<lparr>ocls = c, odict = kvs\<rparr>])"
proof -
  have "distinct (map fst kvs)"
    using bind_args_keys [OF assms] distinct_field_names [of c] by simp
  then show ?thesis
    using init_fields_fresh [of kvs "[]" h c] by simp
qed

lemma construct_plain:
  "\<not> is_dataclass c \<Longrightarrow> construct rt h c args =
     (if c = GenerativeEdit \<or> args \<noteq> [] then Inl TypeError
      else Inr (length h, h @ [\<lparr>ocls = c, odict = []\<rparr>]))"
  by (simp add: construct_def is_abstract_iff Let_def)

lemma construct_dataclass:
  assumes "is_dataclass c" "c \<noteq> Copy" "bind_args (dataclass_fields c) args = Inr kvs"
  shows "construct rt h c args = Inr (length h, h @ [\<lparr>ocls = c, odict = kvs\<rparr>])"
proof -
  from assms(1) have "\<not> is_abstract c" by (auto simp: is_abstract_iff)
  with assms show ?thesis
    by (simp add: construct_def Let_def dataclass_init_def init_fields_new)
qed

lemma construct_bad_args:
  assumes "is_dataclass c" "bind_args (dataclass_fields c) args = Inl e"
  shows "construct rt h c args = Inl e"
proof -
  from assms(1) have "\<not> is_abstract c" by (auto simp: is_abstract_iff)
  with assms show ?thesis
    by (simp add: construct_def Let_def dataclass_init_def)
qed

lemma construct_Copy:
  "construct rt h Copy [x, y] =
     (if val_ne x y then Inl (ValueError (''Copy: old='' @ val_str rt x @ '' != new='' @ val_str rt y))
      else Inr (length h, h @ [\<lparr>ocls = Copy, odict = [(''old'', x), (''new'', y)]\<rparr>]))"
proof -
  have b: "bind_args (dataclass_fields Copy) [x, y] = Inr [(''old'', x), (''new'', y)]"
    by simp
  note i = init_fields_new [OF b, of h]
  have "dataclass_init Copy rt (h @ [\<lparr>ocls = Copy, odict = []\<rparr>]) (length h) [x, y] =
     (if val_ne x y then Inl (ValueError (''Copy: old='' @ val_str rt x @ '' != new='' @ val_str rt y))
      else Inr (h @ [\<lparr>ocls = Copy, odict = [(''old'', x), (''new'', y)]\<rparr>]))"
    unfolding dataclass_init_def b ebind_simps i
    by (simp add: Copy_post_init_def getattr_def)
  then show ?thesis
    by (simp add: construct_def Let_def is_abstract_iff)
qed

lemma bind_args_Copy:
  "bind_args (dataclass_fields Copy) args = Inr kvs \<Longrightarrow> \<exists>x y. args = [x, y] \<and> kvs = [(''old'', x), (''new'', y)]"
  by (cases args; cases "tl args"; cases "tl (tl args)") auto

lemma construct_result:
  assumes "construct rt h c args = Inr (a, h')"
  shows "a = length h \<and> (\<exists>ob. h' = h @ [ob] \<and> ocls ob = c \<and> wf_obj ob)"
proof (cases "is_dataclass c")
  case False
  with assms show ?thesis
    by (auto simp: construct_plain wf_obj_def is_abstract_iff split: if_splits)
next
  case dc: True
  show ?thesis
  proof (cases "bind_args (dataclass_fields c) args")
    case (Inl e)
    with assms dc show ?thesis by (simp add: construct_bad_args)
  next
    case (Inr kvs)
    note keys = bind_args_keys [OF Inr]
    show ?thesis
    proof (cases "c = Copy")
      case True
      with Inr obtain x y where "args = [x, y]" "kvs = [(''old'', x), (''new'', y)]"
        using bind_args_Copy by blast
      with assms True show ?thesis
        by (auto simp: construct_Copy wf_obj_def is_abstract_iff val_ne_iff split: if_splits)
    next
      case False
      with assms dc Inr keys show ?thesis
        by (auto simp: construct_dataclass wf_obj_def is_abstract_iff)
    qed
  qed
qed

lemma construct_simps:
  "construct rt h Start [] = Inr (length h, h @ [\<lparr>ocls = Start, odict = [(''bos'', PyStr ''<BOS>'')]\<rparr>])"
  "construct rt h Start [v] = Inr (length h, h @ [\<lparr>ocls = Start, odict = [(''bos'', v)]\<rparr>])"
  "construct rt h End [] = Inr (length h, h @ [\<lparr>ocls = End, odict = [(''eos'', PyStr ''<EOS>'')]\<rparr>])"
  "construct rt h End [v] = Inr (length h, h @ [\<lparr>ocls = End, odict = [(''eos'', v)]\<rparr>])"
  "construct rt h ConditionalSub [new] = Inr (length h, h @ [\<lparr>ocls = ConditionalSub, odict = [(''new'', new)]\<rparr>])"
  "construct rt h ConditionalCopy [] = Inr (length h, h @ [\<lparr>ocls = ConditionalCopy, odict = []\<rparr>])"
  "construct rt h ConditionalDel [] = Inr (length h, h @ [\<lparr>ocls = ConditionalDel, odict = []\<rparr>])"
  "construct rt h ConditionalIns [new] = Inr (length h, h @ [\<lparr>ocls = ConditionalIns, odict = [(''new'', new)]\<rparr>])"
  "construct rt h Sub [old, new] = Inr (length h, h @ [\<lparr>ocls = Sub, odict = [(''old'', old), (''new'', new)]\<rparr>])"
  "construct rt h Del [old] = Inr (length h, h @ [\<lparr>ocls = Del, odict = [(''old'', old)]\<rparr>])"
  "construct rt h Ins [new] = Inr (length h, h @ [\<lparr>ocls = Ins, odict = [(''new'', new)]\<rparr>])"
  by (simp_all add: construct_dataclass)

subsection \<open>Frozen instances and the projection\<close>

lemma mro_head: "mro c = c # tl (mro c)"
  by (cases c) simp_all

lemma setattr_frozen:
  assumes "a < length h" "is_dataclass (ocls (h ! a))"
  shows "setattr h a n v = Inl FrozenInstanceError"
proof -
  have "setattr_from (ocls (h ! a) # tl (mro (ocls (h ! a)))) h a n v = Inl FrozenInstanceError"
    using assms by simp
  then show ?thesis
    using assms(1) mro_head [of "ocls (h ! a)"] by (simp add: setattr_def)
qed

lemma delattr_frozen:
  assumes "a < length h" "is_dataclass (ocls (h ! a))"
  shows "delattr h a n = Inl FrozenInstanceError"
proof -
  have "delattr_from (ocls (h ! a) # tl (mro (ocls (h ! a)))) h a n = Inl FrozenInstanceError"
    using assms by simp
  then show ?thesis
    using assms(1) mro_head [of "ocls (h ! a)"] by (simp add: delattr_def)
qed

lemma setattr_plain:
  assumes "a < length h" "\<not> is_dataclass (ocls (h ! a))"
  shows "setattr h a n v = Inr (h[a := (h ! a)\<lparr>odict := dict_set n v (odict (h ! a))\<rparr>])"
  using assms by (cases "ocls (h ! a)") (simp_all add: setattr_def object_setattr_def)

lemma delattr_plain:
  assumes "a < length h" "\<not> is_dataclass (ocls (h ! a))"
  shows "delattr h a n =
     (if n \<in> fst ` set (odict (h ! a)) then Inr (h[a := (h ! a)\<lparr>odict := dict_del n (odict (h ! a))\<rparr>])
      else Inl AttributeError)"
  using assms by (cases "ocls (h ! a)") (simp_all add: delattr_def object_delattr_def)

lemma setattr_invalid: "\<not> a < length h \<Longrightarrow> setattr h a n v = Inl NoSuchObject"
  by (simp add: setattr_def)

lemma delattr_invalid: "\<not> a < length h \<Longrightarrow> delattr h a n = Inl NoSuchObject"
  by (simp add: delattr_def)

lemma lookup_cc_simps [simp]:
  "lookup cc_table (mro Edit) = None"
  "lookup cc_table (mro Start) = None"
  "lookup cc_table (mro End) = None"
  "lookup cc_table (mro ConditionalEdit) = Some ConditionalEdit_conditional_counterpart"
  "lookup cc_table (mro ConditionalSub) = Some ConditionalEdit_conditional_counterpart"
  "lookup cc_table (mro ConditionalCopy) = Some ConditionalEdit_conditional_counterpart"
  "lookup cc_table (mro ConditionalDel) = Some ConditionalEdit_conditional_counterpart"
  "lookup cc_table (mro ConditionalIns) = Some ConditionalEdit_conditional_counterpart"
  "lookup cc_table (mro GenerativeEdit) = Some GenerativeEdit_conditional_counterpart"
  "lookup cc_table (mro Sub) = Some Sub_conditional_counterpart"
  "lookup cc_table (mro Copy) = Some Copy_conditional_counterpart"
  "lookup cc_table (mro Del) = Some Del_conditional_counterpart"
  "lookup cc_table (mro Ins) = Some Ins_conditional_counterpart"
  by simp_all

lemma cc_table_agrees: "(cc_table c = None) = (cc_is_abstract c = None)"
  by (cases c) simp_all

lemma cc_conditional:
  assumes "a < length h"
    and "ocls (h ! a) \<in> {ConditionalEdit, ConditionalSub, ConditionalCopy, ConditionalDel, ConditionalIns}"
  shows "conditional_counterpart rt h a = Inr (a, h)"
  using assms
  by (auto simp: conditional_counterpart_def ConditionalEdit_conditional_counterpart_def)

lemma cc_sentinel:
  assumes "a < length h" and "ocls (h ! a) \<in> {Edit, Start, End}"
  shows "conditional_counterpart rt h a = Inl AttributeError"
  using assms by (auto simp: conditional_counterpart_def)

lemma wf_getattr:
  assumes "a < length h" "wf_obj (h ! a)" "is_dataclass (ocls (h ! a))"
    and "n \<in> fst ` set (dataclass_fields (ocls (h ! a)) :: (string \<times> 'a pyval option) list)"
  shows "\<exists>v. map_of (odict (h ! a) :: (string \<times> 'a pyval) list) n = Some v \<and> getattr h a n = Inr v"
proof -
  from assms have "set (map fst (odict (h ! a))) = set (map fst (dataclass_fields (ocls (h ! a)) :: (string \<times> 'a pyval option) list))"
    by (simp add: wf_obj_def)
  with assms(4) have "n \<in> fst ` set (odict (h ! a))" by simp
  then have "map_of (odict (h ! a)) n \<noteq> None" by (simp add: map_of_eq_None_iff)
  then show ?thesis using assms(1) by (auto simp: getattr_def)
qed

lemma cc_generative:
  assumes "a < length h" "wf_obj (h ! a)"
  shows "ocls (h ! a) = Sub \<Longrightarrow> \<exists>v. map_of (odict (h ! a)) ''new'' = Some v \<and>
           conditional_counterpart rt h a = Inr (length h, h @ [\<lparr>ocls = ConditionalSub, odict = [(''new'', v)]\<rparr>])"
    and "ocls (h ! a) = Copy \<Longrightarrow>
           conditional_counterpart rt h a = Inr (length h, h @ [\<lparr>ocls = ConditionalCopy, odict = []\<rparr>])"
    and "ocls (h ! a) = Del \<Longrightarrow>
           conditional_counterpart rt h a = Inr (length h, h @ [\<lparr>ocls = ConditionalDel, odict = []\<rparr>])"
    and "ocls (h ! a) = Ins \<Longrightarrow> \<exists>v. map_of (odict (h ! a)) ''new'' = Some v \<and>
           conditional_counterpart rt h a = Inr (length h, h @ [\<lparr>ocls = ConditionalIns, odict = [(''new'', v)]\<rparr>])"
proof -
  show "ocls (h ! a) = Sub \<Longrightarrow> \<exists>v. map_of (odict (h ! a)) ''new'' = Some v \<and>
           conditional_counterpart rt h a = Inr (length h, h @ [\<lparr>ocls = ConditionalSub, odict = [(''new'', v)]\<rparr>])"
    using wf_getattr [OF assms, of "''new''"] assms(1)
    by (auto simp: conditional_counterpart_def Sub_conditional_counterpart_def construct_simps)
  show "ocls (h ! a) = Copy \<Longrightarrow>
           conditional_counterpart rt h a = Inr (length h, h @ [\<lparr>ocls = ConditionalCopy, odict = []\<rparr>])"
    using assms(1)
    by (simp add: conditional_counterpart_def Copy_conditional_counterpart_def construct_simps)
  show "ocls (h ! a) = Del \<Longrightarrow>
           conditional_counterpart rt h a = Inr (length h, h @ [\<lparr>ocls = ConditionalDel, odict = []\<rparr>])"
    using assms(1)
    by (simp add: conditional_counterpart_def Del_conditional_counterpart_def construct_simps)
  show "ocls (h ! a) = Ins \<Longrightarrow> \<exists>v. map_of (odict (h ! a)) ''new'' = Some v \<and>
           conditional_counterpart rt h a = Inr (length h, h @ [\<lparr>ocls = ConditionalIns, odict = [(''new'', v)]\<rparr>])"
    using wf_getattr [OF assms, of "''new''"] assms(1)
    by (auto simp: conditional_counterpart_def Ins_conditional_counterpart_def construct_simps)
qed

text \<open>Whatever the store, a projection that returns gives back the receiver or a new conditional edit.\<close>

lemma cc_result:
  assumes "conditional_counterpart rt h a = Inr (r, h')"
  shows "(r = a \<and> h' = h \<and> a < length h \<and>
            ocls (h ! a) \<in> {ConditionalEdit, ConditionalSub, ConditionalCopy, ConditionalDel, ConditionalIns}) \<or>
         (r = length h \<and> a < length h \<and> (\<exists>ob. h' = h @ [ob] \<and> wf_obj ob \<and>
            (ocls (h ! a), ocls ob) \<in> {(Sub, ConditionalSub), (Copy, ConditionalCopy),
               (Del, ConditionalDel), (Ins, ConditionalIns)}))"
proof -
  from assms have v: "a < length h"
    by (auto simp: conditional_counterpart_def ebind_eq_Inr deref_eq_Inr)
  show ?thesis
  proof (cases "ocls (h ! a)")
    case Sub
    with assms v obtain new where "construct rt h ConditionalSub [new] = Inr (r, h')"
      by (auto simp: conditional_counterpart_def Sub_conditional_counterpart_def ebind_eq_Inr)
    from construct_result [OF this] Sub v show ?thesis by auto
  next
    case Copy
    with assms v have "construct rt h ConditionalCopy [] = Inr (r, h')"
      by (auto simp: conditional_counterpart_def Copy_conditional_counterpart_def)
    from construct_result [OF this] Copy v show ?thesis by auto
  next
    case Del
    with assms v have "construct rt h ConditionalDel [] = Inr (r, h')"
      by (auto simp: conditional_counterpart_def Del_conditional_counterpart_def)
    from construct_result [OF this] Del v show ?thesis by auto
  next
    case Ins
    with assms v obtain new where "construct rt h ConditionalIns [new] = Inr (r, h')"
      by (auto simp: conditional_counterpart_def Ins_conditional_counterpart_def ebind_eq_Inr)
    from construct_result [OF this] Ins v show ?thesis by auto
  qed (use assms v in \<open>auto simp: conditional_counterpart_def
         ConditionalEdit_conditional_counterpart_def GenerativeEdit_conditional_counterpart_def\<close>)
qed

subsection \<open>Equality and hashing in a well-formed store\<close>

lemma call_eq_other_class:
  assumes "a < length h" "b < length h" "ocls (h ! a) \<noteq> ocls (h ! b)"
  shows "call_eq h a b = Inr None"
proof -
  from assms(3) have "a \<noteq> b" by auto
  with assms show ?thesis
    by (auto simp: call_eq_def dataclass_eq_def object_eq_def)
qed

lemma py_eq_other_class:
  assumes "a < length h" "b < length h" "ocls (h ! a) \<noteq> ocls (h ! b)"
  shows "py_eq h a b = Inr False"
proof -
  from assms(3) have ne: "a \<noteq> b" by auto
  have ab: "call_eq h a b = Inr None"
    using assms by (rule call_eq_other_class)
  have ba: "call_eq h b a = Inr None"
    using assms by (intro call_eq_other_class) auto
  show ?thesis
    using assms(1,2) ne by (simp add: py_eq_def Let_def ab ba)
qed

lemma call_eq_dataclass:
  assumes "a < length h" "b < length h" "ocls (h ! a) = ocls (h ! b)" "is_dataclass (ocls (h ! a))"
    and "wf_obj (h ! a)" "wf_obj (h ! b)"
  shows "call_eq h a b = Inr (Some (map snd (odict (h ! a)) = map snd (odict (h ! b))))"
proof -
  have ra: "read_fields h a (map fst (dataclass_fields (ocls (h ! b)) :: (string \<times> 'a pyval option) list))
      = Inr (map snd (odict (h ! a) :: (string \<times> 'a pyval) list))"
    using assms wf_read_fields [of a h] by simp
  have rb: "read_fields h b (map fst (dataclass_fields (ocls (h ! b)) :: (string \<times> 'a pyval option) list))
      = Inr (map snd (odict (h ! b) :: (string \<times> 'a pyval) list))"
    using assms wf_read_fields [of b h] by simp
  show ?thesis
    using assms(1-4) by (simp add: call_eq_def dataclass_eq_def ra rb)
qed

lemma py_eq_dataclass:
  assumes "a < length h" "b < length h" "ocls (h ! a) = ocls (h ! b)" "is_dataclass (ocls (h ! a))"
    and "wf_obj (h ! a)" "wf_obj (h ! b)"
  shows "py_eq h a b = Inr (map snd (odict (h ! a)) = map snd (odict (h ! b)))"
  using assms(1-3) by (simp add: py_eq_def Let_def call_eq_dataclass [OF assms])

lemma wf_same_keys:
  assumes "ocls x = ocls y" "is_dataclass (ocls x)" "wf_obj x" "wf_obj y"
  shows "(map snd (odict x) = map snd (odict y)) = (x = y)"
proof -
  from assms have "map fst (odict x) = map fst (odict y)"
    by (simp add: wf_obj_def)
  then have "(map snd (odict x) = map snd (odict y)) = (odict x = odict y)"
    by (metis zip_map_fst_snd)
  with assms(1) show ?thesis by auto
qed

lemma py_eq_plain:
  assumes "a < length h" "b < length h" "\<not> is_dataclass (ocls (h ! a))" "\<not> is_dataclass (ocls (h ! b))"
  shows "py_eq h a b = Inr (a = b)"
  using assms by (simp add: py_eq_def Let_def call_eq_def object_eq_def)

lemma py_hash_dataclass:
  assumes "a < length h" "is_dataclass (ocls (h ! a))" "wf_obj (h ! a)"
  shows "py_hash rt h a = Inr (tuple_hash rt (map (val_hash rt) (map snd (odict (h ! a)))))"
  using assms by (simp add: py_hash_def dataclass_hash_def wf_read_fields)

lemma py_hash_plain:
  assumes "a < length h" "\<not> is_dataclass (ocls (h ! a))"
  shows "py_hash rt h a = Inr (id_hash rt a)"
  using assms by (simp add: py_hash_def)

text \<open>In a well-formed store, equal objects have equal hashes.\<close>

lemma eq_imp_hash:
  assumes "wf_heap h" "a < length h" "b < length h" "py_eq h a b = Inr True"
  shows "\<exists>n. py_hash rt h a = Inr n \<and> py_hash rt h b = Inr n"
proof -
  from assms(1-3) have wf: "wf_obj (h ! a)" "wf_obj (h ! b)"
    by (simp_all add: wf_heap_def list_all_length)
  have same: "ocls (h ! a) = ocls (h ! b)"
    using assms py_eq_other_class [of a h b] by auto
  show ?thesis
  proof (cases "is_dataclass (ocls (h ! a))")
    case True
    with assms same wf have "map snd (odict (h ! a)) = map snd (odict (h ! b))"
      by (simp add: py_eq_dataclass)
    with assms same wf True show ?thesis
      by (simp add: py_hash_dataclass)
  next
    case False
    with assms same have "a = b" by (simp add: py_eq_plain)
    with assms False show ?thesis by (simp add: py_hash_plain)
  qed
qed

subsection \<open>Steps preserve frozen objects and well-formedness\<close>

text \<open>The three ways a step can leave the store.\<close>

lemma exec_store:
  assumes "exec rt h x = (r, h')"
  shows "h' = h \<or> (\<exists>ob. h' = h @ [ob] \<and> wf_obj ob) \<or>
         (\<exists>a d. a < length h \<and> \<not> is_dataclass (ocls (h ! a)) \<and> h' = h[a := (h ! a)\<lparr>odict := d\<rparr>])"
proof (cases x)
  case (Construct c args)
  with assms show ?thesis
    by (auto split: sum.splits dest: construct_result)
next
  case (CondCounterpart a)
  with assms show ?thesis
    by (auto split: sum.splits dest!: cc_result)
next
  case (SetAttr a n v)
  show ?thesis
  proof (cases "a < length h")
    case False
    with assms SetAttr show ?thesis by (simp add: setattr_invalid)
  next
    case True
    with assms SetAttr show ?thesis
      by (cases "is_dataclass (ocls (h ! a))") (auto simp: setattr_frozen setattr_plain)
  qed
next
  case (DelAttr a n)
  show ?thesis
  proof (cases "a < length h")
    case False
    with assms DelAttr show ?thesis by (simp add: delattr_invalid)
  next
    case True
    with assms DelAttr show ?thesis
      by (cases "is_dataclass (ocls (h ! a))") (auto simp: delattr_frozen delattr_plain split: if_splits)
  qed
qed (use assms in \<open>auto split: sum.splits\<close>)


lemma exec_keeps_class:
  assumes "exec rt h x = (r, h')" "a < length h"
  shows "a < length h' \<and> ocls (h' ! a) = ocls (h ! a)"
  using exec_store [OF assms(1)] assms(2)
  by (auto simp: nth_append nth_list_update)

lemma exec_wf:
  assumes "exec rt h x = (r, h')" "wf_heap h"
  shows "wf_heap h'"
proof -
  from exec_store [OF assms(1)] show ?thesis
  proof (elim disjE exE conjE)
    assume "h' = h"
    with assms(2) show ?thesis by simp
  next
    fix ob assume "h' = h @ [ob]" "wf_obj ob"
    with assms(2) show ?thesis by (simp add: wf_heap_def)
  next
    fix a d assume a: "a < length h" "\<not> is_dataclass (ocls (h ! a))" "h' = h[a := (h ! a)\<lparr>odict := d\<rparr>]"
    from assms(2) a(1) have "wf_obj (h ! a)" by (simp add: wf_heap_def list_all_length)
    with a(2) have "wf_obj ((h ! a)\<lparr>odict := d\<rparr>)"
      by (auto simp: wf_obj_def)
    with assms(2) a show ?thesis
      by (auto simp: wf_heap_def list_all_length nth_list_update)
  qed
qed


lemma run_wf: "wf_heap h \<Longrightarrow> wf_heap (run rt h xs)"
proof (induction xs arbitrary: h)
  case Nil
  then show ?case by simp
next
  case (Cons x xs)
  obtain r h' where e: "exec rt h x = (r, h')" by (cases "exec rt h x")
  from exec_wf [OF e Cons.prems] Cons.IH e show ?case by simp
qed

lemma wf_heap_empty: "wf_heap []"
  by (simp add: wf_heap_def)

subsection \<open>The example session\<close>

lemma example_store_run: "run example_runtime [] example_ops = example_store"
  by (simp add: example_ops_def example_store_def construct_simps construct_Copy construct_plain
      val_ne_iff)

lemma wf_example_store: "wf_heap example_store"
  using run_wf [OF wf_heap_empty, of example_runtime example_ops]
  by (simp only: example_store_run)

lemma length_example_store: "length example_store = 16"
  by (simp add: example_store_def)

lemma example_store_nth:
  "example_store ! 0 = \<lparr>ocls = Start, odict = [(''bos'', PyStr ''<BOS>'')]\<rparr>"
  "example_store ! 1 = \<lparr>ocls = Start, odict = [(''bos'', PyStr ''x'')]\<rparr>"
  "example_store ! 2 = \<lparr>ocls = End, odict = [(''eos'', PyStr ''<EOS>'')]\<rparr>"
  "example_store ! 3 = \<lparr>ocls = ConditionalSub, odict = [(''new'', Atom 1)]\<rparr>"
  "example_store ! 4 = \<lparr>ocls = ConditionalCopy, odict = []\<rparr>"
  "example_store ! 5 = \<lparr>ocls = ConditionalDel, odict = []\<rparr>"
  "example_store ! 6 = \<lparr>ocls = ConditionalIns, odict = [(''new'', Atom 2)]\<rparr>"
  "example_store ! 7 = \<lparr>ocls = Sub, odict = [(''old'', Atom 3), (''new'', Atom 1)]\<rparr>"
  "example_store ! 8 = \<lparr>ocls = Copy, odict = [(''old'', PyStr ''a''), (''new'', PyStr ''a'')]\<rparr>"
  "example_store ! 9 = \<lparr>ocls = Copy, odict = [(''old'', PyStr ''a''), (''new'', PyStr ''a'')]\<rparr>"
  "example_store ! 10 = \<lparr>ocls = Del, odict = [(''old'', Atom 3)]\<rparr>"
  "example_store ! 11 = \<lparr>ocls = Ins, odict = [(''new'', Atom 2)]\<rparr>"
  "example_store ! 12 = \<lparr>ocls = ConditionalEdit, odict = []\<rparr>"
  "example_store ! 13 = \<lparr>ocls = Sub, odict = [(''old'', Atom 3), (''new'', Atom 1)]\<rparr>"
  "example_store ! 14 = \<lparr>ocls = Edit, odict = []\<rparr>"
  "example_store ! 15 = \<lparr>ocls = Sub, odict = [(''old'', PyStr ''a''), (''new'', PyStr ''a'')]\<rparr>"
  by (simp_all add: example_store_def)

subsection \<open>Totality of the projection\<close>

lemma wf_heap_nth: "wf_heap h \<Longrightarrow> a < length h \<Longrightarrow> wf_obj (h ! a)"
  by (simp add: wf_heap_def list_all_length)

lemma cc_generative_total:
  assumes "e < length h" "wf_obj (h ! e)" "ocls (h ! e) \<in> {Sub, Copy, Del, Ins}"
  shows "\<exists>r h'. conditional_counterpart rt h e = Inr (r, h') \<and> r < length h' \<and>
           (ocls (h ! e), ocls (h' ! r)) \<in>
             {(Sub, ConditionalSub), (Copy, ConditionalCopy), (Del, ConditionalDel), (Ins, ConditionalIns)}"
  using assms(3) cc_generative [OF assms(1,2), of rt] by auto

lemma cc_never_not_implemented:
  assumes "wf_heap h"
  shows "conditional_counterpart rt h e \<noteq> Inl NotImplementedError"
proof (cases "e < length h")
  case False
  then show ?thesis by (simp add: conditional_counterpart_def)
next
  case True
  with assms have wf: "wf_obj (h ! e)" by (rule wf_heap_nth)
  then have na: "ocls (h ! e) \<noteq> GenerativeEdit" by (simp add: wf_obj_def is_abstract_iff)
  show ?thesis
  proof (cases "ocls (h ! e) \<in> {Sub, Copy, Del, Ins}")
    case True
    with cc_generative_total [OF \<open>e < length h\<close> wf, of rt] show ?thesis by auto
  next
    case False
    with na True show ?thesis
      by (cases "ocls (h ! e)") (simp_all add: cc_conditional cc_sentinel)
  qed
qed

subsection \<open>The projection is idempotent\<close>

lemma py_eq_refl_wf:
  assumes "a < length h" "wf_obj (h ! a)"
  shows "py_eq h a a = Inr True"
proof (cases "is_dataclass (ocls (h ! a))")
  case True
  with assms show ?thesis by (simp add: py_eq_dataclass)
next
  case False
  with assms show ?thesis by (simp add: py_eq_plain)
qed

lemma cc_twice:
  "ebind (conditional_counterpart rt h e) (\<lambda>(r, h'). conditional_counterpart rt h' r)
     = conditional_counterpart rt h e"
proof (cases "conditional_counterpart rt h e")
  case (Inl err)
  then show ?thesis by simp
next
  case (Inr p)
  obtain r h' where p: "p = (r, h')" by (cases p)
  from cc_result [of rt h e r h'] Inr p
  have "r < length h' \<and>
      ocls (h' ! r) \<in> {ConditionalEdit, ConditionalSub, ConditionalCopy, ConditionalDel, ConditionalIns}"
    by auto
  then have "conditional_counterpart rt h' r = Inr (r, h')"
    by (intro cc_conditional) auto
  with Inr p show ?thesis by simp
qed

subsection \<open>Sentinels\<close>

lemma sentinel_eq:
  assumes "wf_heap h" "a < length h" "b < length h"
  shows "ocls (h ! a) = Start \<Longrightarrow> ocls (h ! b) = Start \<Longrightarrow>
           py_eq h a b = Inr (getattr h a ''bos'' = getattr h b ''bos'')"
    and "ocls (h ! a) = End \<Longrightarrow> ocls (h ! b) = End \<Longrightarrow>
           py_eq h a b = Inr (getattr h a ''eos'' = getattr h b ''eos'')"
proof -
  from assms have wf: "wf_obj (h ! a)" "wf_obj (h ! b)" by (simp_all add: wf_heap_nth)
  { fix c n
    assume c: "ocls (h ! a) = c" "ocls (h ! b) = c"
      and f: "map fst (dataclass_fields c :: (string \<times> 'a pyval option) list) = [n]" "is_dataclass c"
    from wf c f obtain u v where uv: "odict (h ! a) = [(n, u)]" "odict (h ! b) = [(n, v)]"
      by (auto simp: wf_obj_def map_eq_Cons_conv)
    with assms c f wf have "py_eq h a b = Inr (getattr h a n = getattr h b n)"
      by (simp add: py_eq_dataclass getattr_def) }
  note one = this
  show "ocls (h ! a) = Start \<Longrightarrow> ocls (h ! b) = Start \<Longrightarrow>
           py_eq h a b = Inr (getattr h a ''bos'' = getattr h b ''bos'')"
    by (rule one [of Start]) simp_all
  show "ocls (h ! a) = End \<Longrightarrow> ocls (h ! b) = End \<Longrightarrow>
           py_eq h a b = Inr (getattr h a ''eos'' = getattr h b ''eos'')"
    by (rule one [of End]) simp_all
qed

lemmas str_defs = py_str_def py_repr_def Start_repr_def End_repr_def

subsection \<open>Keys of dicts and sets\<close>

lemma same_key_eq:
  assumes "wf_heap h" "a < length h" "b < length h" "py_eq h a b = Inr True"
  shows "same_key rt h a b = Inr True"
  using eq_imp_hash [OF assms, of rt] assms(4)
  by (auto simp: same_key_def)

subsection \<open>Immutability\<close>



text \<open>An instance of a class without the decorator is not frozen.\<close>

lemma plain_instance_mutable:
  "setattr example_store 12 ''note'' (Atom 7)
     = Inr (example_store[12 := \<lparr>ocls = ConditionalEdit, odict = [(''note'', Atom 7)]\<rparr>])"
  by (simp add: setattr_plain length_example_store example_store_nth)

subsection \<open>Evaluating straight-line client code\<close>

lemmas run_defs =
  conditional_counterpart_def Sub_conditional_counterpart_def Copy_conditional_counterpart_def
  Del_conditional_counterpart_def Ins_conditional_counterpart_def ConditionalEdit_conditional_counterpart_def
  getattr_def py_eq_def call_eq_def dataclass_eq_def Let_def nth_append construct_simps construct_Copy

section \<open>The statements of the specification\<close>

text \<open>
  C1. The mapping from generative to conditional edits is exact. In any store and
  for all payloads: \<^verbatim>\<open>Sub(old, new).conditional_counterpart()\<close> is a
  \<open>ConditionalSub\<close> whose only field is \<open>new\<close>, and it is \<^verbatim>\<open>==\<close> to a newly built
  \<^verbatim>\<open>ConditionalSub(new)\<close>; for every \<open>x\<close> with \<^verbatim>\<open>x == x\<close>,
  \<^verbatim>\<open>Copy(x, x).conditional_counterpart()\<close> is a \<open>ConditionalCopy\<close> with an empty
  dict (neither \<open>old\<close> nor \<open>new\<close>), equal to \<^verbatim>\<open>ConditionalCopy()\<close>, and so is the
  counterpart of every \<open>Copy\<close> object in any store, whatever it holds;
  \<^verbatim>\<open>Del(old).conditional_counterpart()\<close> is a \<open>ConditionalDel\<close> with an empty
  dict, equal to \<^verbatim>\<open>ConditionalDel()\<close>; and \<^verbatim>\<open>Ins(new).conditional_counterpart()\<close>
  is a \<open>ConditionalIns\<close> whose only field is \<open>new\<close>, equal to
  \<^verbatim>\<open>ConditionalIns(new)\<close>.
\<close>

theorem mapping_table_exact:
  "(\<exists>a h1 r h2 b h3.
      construct rt h Sub [old, new] = Inr (a, h1) \<and>
      conditional_counterpart rt h1 a = Inr (r, h2) \<and>
      deref h2 r = Inr \<lparr>ocls = ConditionalSub, odict = [(''new'', new)]\<rparr> \<and>
      construct rt h2 ConditionalSub [new] = Inr (b, h3) \<and>
      py_eq h3 r b = Inr True) \<and>
   (val_eq x x \<longrightarrow>
     (\<exists>a h1 r h2 b h3.
        construct rt h Copy [x, x] = Inr (a, h1) \<and>
        conditional_counterpart rt h1 a = Inr (r, h2) \<and>
        deref h2 r = Inr \<lparr>ocls = ConditionalCopy, odict = []\<rparr> \<and>
        construct rt h2 ConditionalCopy [] = Inr (b, h3) \<and>
        py_eq h3 r b = Inr True)) \<and>
   (e < length h \<and> ocls (h ! e) = Copy \<longrightarrow>
     (\<exists>r h2 b h3.
        conditional_counterpart rt h e = Inr (r, h2) \<and>
        deref h2 r = Inr \<lparr>ocls = ConditionalCopy, odict = []\<rparr> \<and>
        construct rt h2 ConditionalCopy [] = Inr (b, h3) \<and>
        py_eq h3 r b = Inr True)) \<and>
   (\<exists>a h1 r h2 b h3.
      construct rt h Del [old] = Inr (a, h1) \<and>
      conditional_counterpart rt h1 a = Inr (r, h2) \<and>
      deref h2 r = Inr \<lparr>ocls = ConditionalDel, odict = []\<rparr> \<and>
      construct rt h2 ConditionalDel [] = Inr (b, h3) \<and>
      py_eq h3 r b = Inr True) \<and>
   (\<exists>a h1 r h2 b h3.
      construct rt h Ins [new] = Inr (a, h1) \<and>
      conditional_counterpart rt h1 a = Inr (r, h2) \<and>
      deref h2 r = Inr \<lparr>ocls = ConditionalIns, odict = [(''new'', new)]\<rparr> \<and>
      construct rt h2 ConditionalIns [new] = Inr (b, h3) \<and>
      py_eq h3 r b = Inr True)"
proof (intro conjI impI)
  assume "val_eq x x"
  then show "\<exists>a h1 r h2 b h3.
        construct rt h Copy [x, x] = Inr (a, h1) \<and>
        conditional_counterpart rt h1 a = Inr (r, h2) \<and>
        deref h2 r = Inr \<lparr>ocls = ConditionalCopy, odict = []\<rparr> \<and>
        construct rt h2 ConditionalCopy [] = Inr (b, h3) \<and>
        py_eq h3 r b = Inr True"
    by (simp add: run_defs val_ne_def)
next
  assume "e < length h \<and> ocls (h ! e) = Copy"
  then show "\<exists>r h2 b h3.
        conditional_counterpart rt h e = Inr (r, h2) \<and>
        deref h2 r = Inr \<lparr>ocls = ConditionalCopy, odict = []\<rparr> \<and>
        construct rt h2 ConditionalCopy [] = Inr (b, h3) \<and>
        py_eq h3 r b = Inr True"
    by (simp add: run_defs)
qed (simp_all add: run_defs)

theorem mapping_table_exact_witness:
  "val_eq (PyStr ''a'') (PyStr ''a'' :: nat pyval) \<and>
   (\<exists>a h1 r h2 b h3.
      construct example_runtime [] Copy [PyStr ''a'', PyStr ''a''] = Inr (a, h1) \<and>
      conditional_counterpart example_runtime h1 a = Inr (r, h2) \<and>
      deref h2 r = Inr \<lparr>ocls = ConditionalCopy, odict = []\<rparr> \<and>
      construct example_runtime h2 ConditionalCopy [] = Inr (b, h3) \<and>
      py_eq h3 r b = Inr True) \<and>
   8 < length example_store \<and> ocls (example_store ! 8) = Copy \<and>
   (\<exists>r h2 b h3.
      conditional_counterpart example_runtime example_store 8 = Inr (r, h2) \<and>
      deref h2 r = Inr \<lparr>ocls = ConditionalCopy, odict = []\<rparr> \<and>
      construct example_runtime h2 ConditionalCopy [] = Inr (b, h3) \<and>
      py_eq h3 r b = Inr True)"
proof -
  have v: "val_eq (PyStr ''a'') (PyStr ''a'' :: nat pyval)"
    by (simp add: val_eq_def)
  have s: "8 < length example_store \<and> ocls (example_store ! 8) = Copy"
    by (simp add: example_store_def)
  note t = mapping_table_exact [where rt = example_runtime and x = "PyStr ''a''"]
  note c1 = t [where h = "[]", THEN conjunct2, THEN conjunct1, rule_format, OF v]
  note c2 = t [where h = example_store and e = 8, THEN conjunct2, THEN conjunct2, THEN conjunct1,
      rule_format, OF s]
  from v c1 s c2 show ?thesis by (intro conjI) simp_all
qed

text \<open>
  C2 as stated says that \<^verbatim>\<open>Copy(x, x)\<close> succeeds for every \<open>x\<close>. The test in
  \<^verbatim>\<open>__post_init__\<close> is the payload's own \<^verbatim>\<open>!=\<close>, and the payload type is
  \<^verbatim>\<open>Any\<close>: with one float NaN object passed as \<open>old\<close> and as \<open>new\<close>,
  \<^verbatim>\<open>self.old != self.new\<close> is true and the constructor raises.
\<close>

theorem Copy_of_NaN_raises:
  "construct example_runtime [] Copy [PyNaN 0, PyNaN 0]
     = Inl (ValueError ''Copy: old=nan != new=nan'')"
  by (simp add: construct_Copy val_ne_def val_eq_def val_str_def)

text \<open>
  C2, amended. \<^verbatim>\<open>Copy(old, new)\<close> raises \<^verbatim>\<open>ValueError\<close> from the constructor
  call itself whenever \<^verbatim>\<open>old != new\<close> is true, which is the case for any two
  different payloads and for a payload that is unequal to itself: the caller gets
  the exception with the message of the source and no object, of class \<open>Sub\<close> or
  any other. For every \<open>x\<close> with \<^verbatim>\<open>x == x\<close>, \<^verbatim>\<open>Copy(x, x)\<close> succeeds, the object
  is a \<open>Copy\<close> holding \<open>x\<close> twice, a second \<^verbatim>\<open>Copy(x, x)\<close> is a different object
  that is \<^verbatim>\<open>==\<close> to the first in both directions, and in any store any two
  \<open>Copy\<close> objects holding \<open>x\<close> are \<^verbatim>\<open>==\<close>.
\<close>

theorem Copy_construction_validated:
  "(val_ne old new \<longrightarrow>
      construct rt h Copy [old, new] =
        Inl (ValueError (''Copy: old='' @ val_str rt old @ '' != new='' @ val_str rt new))) \<and>
   (old \<noteq> new \<longrightarrow>
      construct rt h Copy [old, new] =
        Inl (ValueError (''Copy: old='' @ val_str rt old @ '' != new='' @ val_str rt new))) \<and>
   (val_eq x x \<longrightarrow>
     (\<exists>a h1 b h2.
        construct rt h Copy [x, x] = Inr (a, h1) \<and>
        deref h1 a = Inr \<lparr>ocls = Copy, odict = [(''old'', x), (''new'', x)]\<rparr> \<and>
        construct rt h1 Copy [x, x] = Inr (b, h2) \<and>
        b \<noteq> a \<and> py_eq h2 a b = Inr True \<and> py_eq h2 b a = Inr True)) \<and>
   (deref h a = Inr \<lparr>ocls = Copy, odict = [(''old'', x), (''new'', x)]\<rparr> \<and>
    deref h b = Inr \<lparr>ocls = Copy, odict = [(''old'', x), (''new'', x)]\<rparr> \<longrightarrow>
      py_eq h a b = Inr True)"
proof (intro conjI impI)
  assume "val_ne old new"
  then show "construct rt h Copy [old, new] =
      Inl (ValueError (''Copy: old='' @ val_str rt old @ '' != new='' @ val_str rt new))"
    by (simp add: construct_Copy)
next
  assume "old \<noteq> new"
  then have "val_ne old new" by (simp add: val_ne_iff)
  then show "construct rt h Copy [old, new] =
      Inl (ValueError (''Copy: old='' @ val_str rt old @ '' != new='' @ val_str rt new))"
    by (simp add: construct_Copy)
next
  assume "val_eq x x"
  then show "\<exists>a h1 b h2.
      construct rt h Copy [x, x] = Inr (a, h1) \<and>
      deref h1 a = Inr \<lparr>ocls = Copy, odict = [(''old'', x), (''new'', x)]\<rparr> \<and>
      construct rt h1 Copy [x, x] = Inr (b, h2) \<and>
      b \<noteq> a \<and> py_eq h2 a b = Inr True \<and> py_eq h2 b a = Inr True"
    by (simp add: run_defs val_ne_def)
next
  assume "deref h a = Inr \<lparr>ocls = Copy, odict = [(''old'', x), (''new'', x)]\<rparr> \<and>
    deref h b = Inr \<lparr>ocls = Copy, odict = [(''old'', x), (''new'', x)]\<rparr>"
  then show "py_eq h a b = Inr True"
    by (simp add: deref_eq_Inr run_defs)
qed

theorem Copy_construction_validated_witness:
  "val_ne (PyNaN 0) (PyNaN 0 :: nat pyval) \<and>
   construct example_runtime [] Copy [PyNaN 0, PyNaN 0] = Inl (ValueError ''Copy: old=nan != new=nan'') \<and>
   PyStr ''a'' \<noteq> (PyStr ''b'' :: nat pyval) \<and>
   construct example_runtime [] Copy [PyStr ''a'', PyStr ''b''] = Inl (ValueError ''Copy: old=a != new=b'') \<and>
   val_eq (PyStr ''a'') (PyStr ''a'' :: nat pyval) \<and>
   (\<exists>a h1 b h2.
      construct example_runtime [] Copy [PyStr ''a'', PyStr ''a''] = Inr (a, h1) \<and>
      deref h1 a = Inr \<lparr>ocls = Copy, odict = [(''old'', PyStr ''a''), (''new'', PyStr ''a'')]\<rparr> \<and>
      construct example_runtime h1 Copy [PyStr ''a'', PyStr ''a''] = Inr (b, h2) \<and>
      b \<noteq> a \<and> py_eq h2 a b = Inr True \<and> py_eq h2 b a = Inr True) \<and>
   deref example_store 8 = Inr \<lparr>ocls = Copy, odict = [(''old'', PyStr ''a''), (''new'', PyStr ''a'')]\<rparr> \<and>
   deref example_store 9 = Inr \<lparr>ocls = Copy, odict = [(''old'', PyStr ''a''), (''new'', PyStr ''a'')]\<rparr> \<and>
   py_eq example_store 8 9 = Inr True"
proof -
  have n: "val_ne (PyNaN 0) (PyNaN 0 :: nat pyval)"
    by (simp add: val_ne_def val_eq_def)
  have ne: "PyStr ''a'' \<noteq> (PyStr ''b'' :: nat pyval)"
    by simp
  have v: "val_eq (PyStr ''a'') (PyStr ''a'' :: nat pyval)"
    by (simp add: val_eq_def)
  have d: "deref example_store 8 = Inr \<lparr>ocls = Copy, odict = [(''old'', PyStr ''a''), (''new'', PyStr ''a'')]\<rparr> \<and>
      deref example_store 9 = Inr \<lparr>ocls = Copy, odict = [(''old'', PyStr ''a''), (''new'', PyStr ''a'')]\<rparr>"
    by (simp add: deref_def example_store_def)
  note c1 = Copy_construction_validated [where old = "PyNaN 0" and new = "PyNaN 0"
      and rt = example_runtime and h = "[]", THEN conjunct1, rule_format, OF n]
  note c2 = Copy_construction_validated [where old = "PyStr ''a''" and new = "PyStr ''b''"
      and rt = example_runtime and h = "[]", THEN conjunct2, THEN conjunct1, rule_format, OF ne]
  note c3 = Copy_construction_validated [where x = "PyStr ''a''" and rt = example_runtime and h = "[]",
      THEN conjunct2, THEN conjunct2, THEN conjunct1, rule_format, OF v]
  note c4 = Copy_construction_validated [where h = example_store and a = 8 and b = 9
      and x = "PyStr ''a''", THEN conjunct2, THEN conjunct2, THEN conjunct2, rule_format, OF d]
  have m1: "construct example_runtime [] Copy [PyNaN 0, PyNaN 0] = Inl (ValueError ''Copy: old=nan != new=nan'')"
    using c1 by (simp add: val_str_def)
  have m2: "construct example_runtime [] Copy [PyStr ''a'', PyStr ''b''] = Inl (ValueError ''Copy: old=a != new=b'')"
    using c2 by (simp add: val_str_def)
  from n m1 ne m2 v c3 d c4 show ?thesis by (intro conjI) simp_all
qed

text \<open>
  C3. The projection is total on the concrete generative variants. For a class
  among \<open>Sub\<close>, \<open>Copy\<close>, \<open>Del\<close>, \<open>Ins\<close>, every edit the constructor returns, and
  every such edit in a well-formed store, has a \<^verbatim>\<open>conditional_counterpart()\<close> that
  returns a reference to an object of the mapped conditional class. The
  \<^verbatim>\<open>NotImplementedError\<close> of \<^verbatim>\<open>GenerativeEdit.conditional_counterpart\<close> is never
  the outcome of the call in a well-formed store, in particular not in any store
  that the operations build from the empty one; and \<open>GenerativeEdit\<close> itself cannot
  be instantiated.
\<close>

theorem conditional_counterpart_total:
  "(c \<in> {Sub, Copy, Del, Ins} \<and> construct rt h c args = Inr (e, h1) \<longrightarrow>
      (\<exists>r h2. conditional_counterpart rt h1 e = Inr (r, h2) \<and> r < length h2 \<and>
         (c, ocls (h2 ! r)) \<in>
           {(Sub, ConditionalSub), (Copy, ConditionalCopy), (Del, ConditionalDel), (Ins, ConditionalIns)})) \<and>
   (wf_heap h \<and> e < length h \<and> ocls (h ! e) \<in> {Sub, Copy, Del, Ins} \<longrightarrow>
      (\<exists>r h2. conditional_counterpart rt h e = Inr (r, h2) \<and> r < length h2 \<and>
         (ocls (h ! e), ocls (h2 ! r)) \<in>
           {(Sub, ConditionalSub), (Copy, ConditionalCopy), (Del, ConditionalDel), (Ins, ConditionalIns)})) \<and>
   (wf_heap h \<longrightarrow> conditional_counterpart rt h e \<noteq> Inl NotImplementedError) \<and>
   conditional_counterpart rt (run rt [] xs) e \<noteq> Inl NotImplementedError \<and>
   construct rt h GenerativeEdit args = Inl TypeError"
proof (intro conjI impI)
  assume a: "c \<in> {Sub, Copy, Del, Ins} \<and> construct rt h c args = Inr (e, h1)"
  with construct_result [of rt h c args e h1]
  have "e < length h1" "wf_obj (h1 ! e)" "ocls (h1 ! e) = c" by auto
  with a cc_generative_total [of e h1 rt]
  show "\<exists>r h2. conditional_counterpart rt h1 e = Inr (r, h2) \<and> r < length h2 \<and>
         (c, ocls (h2 ! r)) \<in>
           {(Sub, ConditionalSub), (Copy, ConditionalCopy), (Del, ConditionalDel), (Ins, ConditionalIns)}"
    by simp
next
  assume "wf_heap h \<and> e < length h \<and> ocls (h ! e) \<in> {Sub, Copy, Del, Ins}"
  then show "\<exists>r h2. conditional_counterpart rt h e = Inr (r, h2) \<and> r < length h2 \<and>
         (ocls (h ! e), ocls (h2 ! r)) \<in>
           {(Sub, ConditionalSub), (Copy, ConditionalCopy), (Del, ConditionalDel), (Ins, ConditionalIns)}"
    using cc_generative_total [of e h rt] wf_heap_nth [of h e] by blast
next
  assume "wf_heap h"
  then show "conditional_counterpart rt h e \<noteq> Inl NotImplementedError"
    by (rule cc_never_not_implemented)
next
  show "conditional_counterpart rt (run rt [] xs) e \<noteq> Inl NotImplementedError"
    by (intro cc_never_not_implemented run_wf wf_heap_empty)
next
  show "construct rt h GenerativeEdit args = Inl TypeError"
    by (simp add: construct_plain)
qed

theorem conditional_counterpart_total_witness:
  "Sub \<in> {Sub, Copy, Del, Ins} \<and>
   construct example_runtime [] Sub [Atom 3, Atom 1]
     = Inr (0, [\<lparr>ocls = Sub, odict = [(''old'', Atom 3), (''new'', Atom 1)]\<rparr>]) \<and>
   (\<exists>r h2. conditional_counterpart example_runtime [\<lparr>ocls = Sub, odict = [(''old'', Atom 3), (''new'', Atom 1)]\<rparr>] 0 = Inr (r, h2) \<and>
      r < length h2 \<and> ocls (h2 ! r) = ConditionalSub) \<and>
   wf_heap example_store \<and> 8 < length example_store \<and> ocls (example_store ! 8) = Copy \<and>
   (\<exists>r h2. conditional_counterpart example_runtime example_store 8 = Inr (r, h2) \<and>
      r < length h2 \<and> ocls (h2 ! r) = ConditionalCopy) \<and>
   conditional_counterpart example_runtime example_store 10 \<noteq> Inl NotImplementedError"
proof -
  have c: "construct example_runtime [] Sub [Atom 3, Atom 1]
     = Inr (0, [\<lparr>ocls = Sub, odict = [(''old'', Atom 3), (''new'', Atom 1)]\<rparr>])"
    by (simp add: construct_simps)
  have s: "8 < length example_store" "ocls (example_store ! 8) = Copy"
    by (simp_all add: length_example_store example_store_nth)
  have "\<exists>r h2. conditional_counterpart example_runtime [\<lparr>ocls = Sub, odict = [(''old'', Atom 3), (''new'', Atom 1)]\<rparr>] 0 = Inr (r, h2) \<and>
      r < length h2 \<and> ocls (h2 ! r) = ConditionalSub"
    using conditional_counterpart_total [where c = Sub and rt = example_runtime and h = "[]"
        and args = "[Atom 3, Atom 1]" and e = 0
        and ?h1.0 = "[\<lparr>ocls = Sub, odict = [(''old'', Atom 3), (''new'', Atom 1)]\<rparr>]"] c
    by simp
  moreover have "\<exists>r h2. conditional_counterpart example_runtime example_store 8 = Inr (r, h2) \<and>
      r < length h2 \<and> ocls (h2 ! r) = ConditionalCopy"
    using conditional_counterpart_total [where rt = example_runtime and h = example_store and e = 8]
      wf_example_store s by simp
  moreover have "conditional_counterpart example_runtime example_store 10 \<noteq> Inl NotImplementedError"
    using conditional_counterpart_total [where rt = example_runtime and h = example_store and e = 10]
      wf_example_store by simp
  ultimately show ?thesis using c s wf_example_store by simp
qed

text \<open>
  C4. On an instance \<open>c\<close> of \<open>ConditionalCopy\<close>, \<open>ConditionalSub\<close>, \<open>ConditionalDel\<close>
  or \<open>ConditionalIns\<close> the projection returns \<open>c\<close> itself and leaves the store as
  it is, and \<^verbatim>\<open>c == c\<close> holds. For every reference \<open>e\<close> in every store, projecting
  twice has the outcome of projecting once: the same reference and store when the
  first call returns, the same exception when it raises.
\<close>

theorem conditional_projection_identity:
  "(wf_heap h \<and> c < length h \<and>
      ocls (h ! c) \<in> {ConditionalCopy, ConditionalSub, ConditionalDel, ConditionalIns} \<longrightarrow>
        conditional_counterpart rt h c = Inr (c, h) \<and> py_eq h c c = Inr True) \<and>
   ebind (conditional_counterpart rt h e) (\<lambda>(r, h'). conditional_counterpart rt h' r)
     = conditional_counterpart rt h e"
proof (intro conjI impI)
  assume a: "wf_heap h \<and> c < length h \<and>
      ocls (h ! c) \<in> {ConditionalCopy, ConditionalSub, ConditionalDel, ConditionalIns}"
  then show "conditional_counterpart rt h c = Inr (c, h)"
    by (intro cc_conditional) auto
  from a show "py_eq h c c = Inr True"
    by (intro py_eq_refl_wf wf_heap_nth) auto
next
  show "ebind (conditional_counterpart rt h e) (\<lambda>(r, h'). conditional_counterpart rt h' r)
     = conditional_counterpart rt h e"
    by (rule cc_twice)
qed

theorem conditional_projection_identity_witness:
  "wf_heap example_store \<and> 3 < length example_store \<and>
   ocls (example_store ! 3) \<in> {ConditionalCopy, ConditionalSub, ConditionalDel, ConditionalIns} \<and>
   conditional_counterpart example_runtime example_store 3 = Inr (3, example_store) \<and>
   py_eq example_store 3 3 = Inr True \<and>
   ebind (conditional_counterpart example_runtime example_store 7)
      (\<lambda>(r, h'). conditional_counterpart example_runtime h' r)
     = Inr (16, example_store @ [\<lparr>ocls = ConditionalSub, odict = [(''new'', Atom 1)]\<rparr>])"
proof -
  have s: "3 < length example_store" "ocls (example_store ! 3) = ConditionalSub"
    by (simp_all add: length_example_store example_store_nth)
  have once: "conditional_counterpart example_runtime example_store 7
      = Inr (16, example_store @ [\<lparr>ocls = ConditionalSub, odict = [(''new'', Atom 1)]\<rparr>])"
    by (simp add: run_defs length_example_store example_store_nth)
  have "conditional_counterpart example_runtime example_store 3 = Inr (3, example_store) \<and>
      py_eq example_store 3 3 = Inr True"
    using conditional_projection_identity [where rt = example_runtime and h = example_store and c = 3]
      wf_example_store s by simp
  moreover have "ebind (conditional_counterpart example_runtime example_store 7)
      (\<lambda>(r, h'). conditional_counterpart example_runtime h' r)
     = Inr (16, example_store @ [\<lparr>ocls = ConditionalSub, odict = [(''new'', Atom 1)]\<rparr>])"
    using conditional_projection_identity [where rt = example_runtime and h = example_store and e = 7]
    by (simp only: once)
  ultimately show ?thesis using wf_example_store s by simp
qed

text \<open>
  C5 as stated says that any two instances of \<open>Start\<close> are equal. \<open>Start\<close> is a
  dataclass with the field \<^verbatim>\<open>bos: str = "<BOS>"\<close>, so the constructor takes the
  token as an argument and the generated \<^verbatim>\<open>__eq__\<close> compares it: \<^verbatim>\<open>Start()\<close> and
  \<^verbatim>\<open>Start("x")\<close> are two instances of \<open>Start\<close> that are not equal.
\<close>

theorem Start_instances_can_differ:
  "construct example_runtime [] Start []
     = Inr (0, [\<lparr>ocls = Start, odict = [(''bos'', PyStr ''<BOS>'')]\<rparr>]) \<and>
   construct example_runtime [\<lparr>ocls = Start, odict = [(''bos'', PyStr ''<BOS>'')]\<rparr>] Start [PyStr ''x'']
     = Inr (1, [\<lparr>ocls = Start, odict = [(''bos'', PyStr ''<BOS>'')]\<rparr>,
                \<lparr>ocls = Start, odict = [(''bos'', PyStr ''x'')]\<rparr>]) \<and>
   py_eq [\<lparr>ocls = Start, odict = [(''bos'', PyStr ''<BOS>'')]\<rparr>,
          \<lparr>ocls = Start, odict = [(''bos'', PyStr ''x'' :: nat pyval)]\<rparr>] 0 1 = Inr False"
  by (simp add: run_defs)

text \<open>
  C5, amended. Two instances of \<open>Start\<close> are equal exactly when they hold the same
  \<open>bos\<close> token, and two instances of \<open>End\<close> exactly when they hold the same \<open>eos\<close>
  token; in particular any two objects built by \<^verbatim>\<open>Start()\<close> are equal, and any two
  built by \<^verbatim>\<open>End()\<close>. A \<open>Start\<close> and an \<open>End\<close> are never equal, whatever their
  tokens. The string form of \<^verbatim>\<open>Start()\<close> is exactly \<^verbatim>\<open><BOS>\<close> and that of
  \<^verbatim>\<open>End()\<close> exactly \<^verbatim>\<open><EOS>\<close>.
\<close>

theorem sentinel_identity_display:
  "(\<exists>a h1 b h2.
      construct rt h Start [] = Inr (a, h1) \<and> construct rt h1 Start [] = Inr (b, h2) \<and> a \<noteq> b \<and>
      py_eq h2 a b = Inr True \<and> py_eq h2 b a = Inr True \<and>
      py_str rt h2 a = Inr ''<BOS>'' \<and> py_str rt h2 b = Inr ''<BOS>'') \<and>
   (\<exists>a h1 b h2.
      construct rt h End [] = Inr (a, h1) \<and> construct rt h1 End [] = Inr (b, h2) \<and> a \<noteq> b \<and>
      py_eq h2 a b = Inr True \<and> py_eq h2 b a = Inr True \<and>
      py_str rt h2 a = Inr ''<EOS>'' \<and> py_str rt h2 b = Inr ''<EOS>'') \<and>
   (wf_heap h \<and> a < length h \<and> b < length h \<and> ocls (h ! a) = Start \<and> ocls (h ! b) = Start \<longrightarrow>
      py_eq h a b = Inr (getattr h a ''bos'' = getattr h b ''bos'')) \<and>
   (wf_heap h \<and> a < length h \<and> b < length h \<and> ocls (h ! a) = End \<and> ocls (h ! b) = End \<longrightarrow>
      py_eq h a b = Inr (getattr h a ''eos'' = getattr h b ''eos'')) \<and>
   (a < length h \<and> b < length h \<and> ocls (h ! a) = Start \<and> ocls (h ! b) = End \<longrightarrow>
      py_eq h a b = Inr False \<and> py_eq h b a = Inr False)"
proof (intro conjI impI)
  show "\<exists>a h1 b h2.
      construct rt h Start [] = Inr (a, h1) \<and> construct rt h1 Start [] = Inr (b, h2) \<and> a \<noteq> b \<and>
      py_eq h2 a b = Inr True \<and> py_eq h2 b a = Inr True \<and>
      py_str rt h2 a = Inr ''<BOS>'' \<and> py_str rt h2 b = Inr ''<BOS>''"
    by (simp add: run_defs str_defs)
  show "\<exists>a h1 b h2.
      construct rt h End [] = Inr (a, h1) \<and> construct rt h1 End [] = Inr (b, h2) \<and> a \<noteq> b \<and>
      py_eq h2 a b = Inr True \<and> py_eq h2 b a = Inr True \<and>
      py_str rt h2 a = Inr ''<EOS>'' \<and> py_str rt h2 b = Inr ''<EOS>''"
    by (simp add: run_defs str_defs)
next
  assume "wf_heap h \<and> a < length h \<and> b < length h \<and> ocls (h ! a) = Start \<and> ocls (h ! b) = Start"
  then show "py_eq h a b = Inr (getattr h a ''bos'' = getattr h b ''bos'')"
    by (intro sentinel_eq) simp_all
next
  assume "wf_heap h \<and> a < length h \<and> b < length h \<and> ocls (h ! a) = End \<and> ocls (h ! b) = End"
  then show "py_eq h a b = Inr (getattr h a ''eos'' = getattr h b ''eos'')"
    by (intro sentinel_eq) simp_all
next
  assume a: "a < length h \<and> b < length h \<and> ocls (h ! a) = Start \<and> ocls (h ! b) = End"
  then show "py_eq h a b = Inr False"
    by (intro py_eq_other_class) simp_all
  from a show "py_eq h b a = Inr False"
    by (intro py_eq_other_class) simp_all
qed

theorem sentinel_identity_display_witness:
  "wf_heap example_store \<and> 0 < length example_store \<and> 1 < length example_store \<and>
   2 < length example_store \<and>
   ocls (example_store ! 0) = Start \<and> ocls (example_store ! 1) = Start \<and>
   ocls (example_store ! 2) = End \<and>
   py_eq example_store 0 0 = Inr True \<and> py_eq example_store 0 1 = Inr False \<and>
   py_eq example_store 2 2 = Inr True \<and>
   py_eq example_store 0 2 = Inr False \<and> py_eq example_store 2 0 = Inr False"
proof -
  have s: "0 < length example_store" "1 < length example_store" "2 < length example_store"
      "ocls (example_store ! 0) = Start" "ocls (example_store ! 1) = Start"
      "ocls (example_store ! 2) = End"
    by (simp_all add: example_store_def)
  have g: "getattr example_store 0 ''bos'' = Inr (PyStr ''<BOS>'')"
      "getattr example_store 1 ''bos'' = Inr (PyStr ''x'')"
    by (simp_all add: getattr_def example_store_def)
  have "py_eq example_store 0 0 = Inr True"
    using sentinel_identity_display [where h = example_store and a = 0 and b = 0] wf_example_store s
    by simp
  moreover have "py_eq example_store 0 1 = Inr False"
    using sentinel_identity_display [where h = example_store and a = 0 and b = 1] wf_example_store s g
    by simp
  moreover have "py_eq example_store 2 2 = Inr True"
    using sentinel_identity_display [where h = example_store and a = 2 and b = 2] wf_example_store s
    by simp
  moreover have "py_eq example_store 0 2 = Inr False \<and> py_eq example_store 2 0 = Inr False"
    using sentinel_identity_display [where h = example_store and a = 0 and b = 2] s
    by simp
  ultimately show ?thesis using wf_example_store s by simp
qed

text \<open>
  C6. No cross-kind equality. In any store, an instance of \<open>ConditionalCopy\<close>,
  \<open>ConditionalSub\<close>, \<open>ConditionalDel\<close> or \<open>ConditionalIns\<close> and an instance of
  \<open>Sub\<close>, \<open>Copy\<close>, \<open>Del\<close> or \<open>Ins\<close> are not \<^verbatim>\<open>==\<close>, in either order and for all
  payloads; and a \<open>Start\<close> or an \<open>End\<close> is not \<^verbatim>\<open>==\<close> to any object of another
  class than these two, in either order.
\<close>

theorem no_cross_kind_equality:
  "(a < length h \<and> b < length h \<and>
      ocls (h ! a) \<in> {ConditionalCopy, ConditionalSub, ConditionalDel, ConditionalIns} \<and>
      ocls (h ! b) \<in> {Sub, Copy, Del, Ins} \<longrightarrow>
        py_eq h a b = Inr False \<and> py_eq h b a = Inr False) \<and>
   (a < length h \<and> b < length h \<and>
      ocls (h ! a) \<in> {Start, End} \<and> ocls (h ! b) \<notin> {Start, End} \<longrightarrow>
        py_eq h a b = Inr False \<and> py_eq h b a = Inr False)"
proof (intro conjI impI)
  assume a: "a < length h \<and> b < length h \<and>
      ocls (h ! a) \<in> {ConditionalCopy, ConditionalSub, ConditionalDel, ConditionalIns} \<and>
      ocls (h ! b) \<in> {Sub, Copy, Del, Ins}"
  then have "ocls (h ! a) \<noteq> ocls (h ! b)" by auto
  with a show "py_eq h a b = Inr False" "py_eq h b a = Inr False"
    by (simp_all add: py_eq_other_class)
next
  assume a: "a < length h \<and> b < length h \<and>
      ocls (h ! a) \<in> {Start, End} \<and> ocls (h ! b) \<notin> {Start, End}"
  then have "ocls (h ! a) \<noteq> ocls (h ! b)" by auto
  with a show "py_eq h a b = Inr False" "py_eq h b a = Inr False"
    by (simp_all add: py_eq_other_class)
qed

theorem no_cross_kind_equality_witness:
  "3 < length example_store \<and> 7 < length example_store \<and>
   ocls (example_store ! 3) = ConditionalSub \<and> ocls (example_store ! 7) = Sub \<and>
   py_eq example_store 3 7 = Inr False \<and> py_eq example_store 7 3 = Inr False \<and>
   2 < length example_store \<and> 4 < length example_store \<and>
   ocls (example_store ! 2) = End \<and> ocls (example_store ! 4) = ConditionalCopy \<and>
   py_eq example_store 2 4 = Inr False \<and> py_eq example_store 4 2 = Inr False"
proof -
  have s: "3 < length example_store" "7 < length example_store"
      "ocls (example_store ! 3) = ConditionalSub" "ocls (example_store ! 7) = Sub"
      "2 < length example_store" "4 < length example_store"
      "ocls (example_store ! 2) = End" "ocls (example_store ! 4) = ConditionalCopy"
    by (simp_all add: example_store_def)
  have "py_eq example_store 3 7 = Inr False \<and> py_eq example_store 7 3 = Inr False"
    using no_cross_kind_equality [where h = example_store and a = 3 and b = 7] s by simp
  moreover have "py_eq example_store 2 4 = Inr False \<and> py_eq example_store 4 2 = Inr False"
    using no_cross_kind_equality [where h = example_store and a = 2 and b = 4] s by simp
  ultimately show ?thesis using s by simp
qed

text \<open>
  C7. Equality and hashing go by value. Two \<^verbatim>\<open>Sub(p, q)\<close> built one after the other
  are different objects that are \<^verbatim>\<open>==\<close>, have the same hash and count as the same
  key of a dict or member of a set. In a well-formed store, two instances of the
  same dataclass are \<^verbatim>\<open>==\<close> exactly when their payloads are the same; and whenever
  two objects are \<^verbatim>\<open>==\<close>, their hashes are equal and they are the same key.
\<close>

theorem structural_equality_and_hash:
  "(\<exists>a h1 b h2.
      construct rt h Sub [p, q] = Inr (a, h1) \<and> construct rt h1 Sub [p, q] = Inr (b, h2) \<and> a \<noteq> b \<and>
      py_eq h2 a b = Inr True \<and> py_eq h2 b a = Inr True \<and>
      (\<exists>n. py_hash rt h2 a = Inr n \<and> py_hash rt h2 b = Inr n) \<and>
      same_key rt h2 a b = Inr True) \<and>
   (wf_heap h \<and> a < length h \<and> b < length h \<and> is_dataclass (ocls (h ! a)) \<and>
      ocls (h ! a) = ocls (h ! b) \<longrightarrow>
        py_eq h a b = Inr (odict (h ! a) = odict (h ! b))) \<and>
   (wf_heap h \<and> a < length h \<and> b < length h \<and> py_eq h a b = Inr True \<longrightarrow>
      (\<exists>n. py_hash rt h a = Inr n \<and> py_hash rt h b = Inr n) \<and> same_key rt h a b = Inr True)"
proof (intro conjI impI)
  show "\<exists>a h1 b h2.
      construct rt h Sub [p, q] = Inr (a, h1) \<and> construct rt h1 Sub [p, q] = Inr (b, h2) \<and> a \<noteq> b \<and>
      py_eq h2 a b = Inr True \<and> py_eq h2 b a = Inr True \<and>
      (\<exists>n. py_hash rt h2 a = Inr n \<and> py_hash rt h2 b = Inr n) \<and>
      same_key rt h2 a b = Inr True"
    by (simp add: run_defs same_key_def py_hash_def dataclass_hash_def)
next
  assume a: "wf_heap h \<and> a < length h \<and> b < length h \<and> is_dataclass (ocls (h ! a)) \<and>
      ocls (h ! a) = ocls (h ! b)"
  then have wf: "wf_obj (h ! a)" "wf_obj (h ! b)" by (simp_all add: wf_heap_nth)
  from a have c: "ocls (h ! a) = ocls (h ! b)" and d: "is_dataclass (ocls (h ! a))"
    by blast+
  from a have v: "a < length h" "b < length h" by simp_all
  have "py_eq h a b = Inr (map snd (odict (h ! a)) = map snd (odict (h ! b)))"
    using v c d wf by (rule py_eq_dataclass)
  moreover have "(map snd (odict (h ! a)) = map snd (odict (h ! b))) = (h ! a = h ! b)"
    using c d wf by (rule wf_same_keys)
  moreover from a have "(h ! a = h ! b) = (odict (h ! a) = odict (h ! b))"
    by auto
  ultimately show "py_eq h a b = Inr (odict (h ! a) = odict (h ! b))" by simp
next
  assume a: "wf_heap h \<and> a < length h \<and> b < length h \<and> py_eq h a b = Inr True"
  then show "\<exists>n. py_hash rt h a = Inr n \<and> py_hash rt h b = Inr n"
    by (intro eq_imp_hash) simp_all
  from a show "same_key rt h a b = Inr True"
    by (intro same_key_eq) simp_all
qed

theorem structural_equality_and_hash_witness:
  "wf_heap example_store \<and> 7 < length example_store \<and> 13 < length example_store \<and>
   is_dataclass (ocls (example_store ! 7)) \<and> ocls (example_store ! 7) = ocls (example_store ! 13) \<and>
   odict (example_store ! 7) = odict (example_store ! 13) \<and>
   py_eq example_store 7 13 = Inr True \<and>
   py_hash example_runtime example_store 7 = Inr 4 \<and>
   py_hash example_runtime example_store 13 = Inr 4 \<and>
   same_key example_runtime example_store 7 13 = Inr True"
proof -
  have s: "7 < length example_store" "13 < length example_store"
      "is_dataclass (ocls (example_store ! 7))" "ocls (example_store ! 7) = ocls (example_store ! 13)"
      "odict (example_store ! 7) = odict (example_store ! 13)"
    by (simp_all add: example_store_def)
  have h7: "py_hash example_runtime example_store 7 = Inr 4"
    by (simp add: py_hash_def dataclass_hash_def getattr_def example_store_def example_runtime_def)
  have e: "py_eq example_store 7 13 = Inr True"
    using structural_equality_and_hash [where h = example_store and a = 7 and b = 13]
      wf_example_store s by simp
  have "py_hash example_runtime example_store 13 = Inr 4 \<and>
      same_key example_runtime example_store 7 13 = Inr True"
    using structural_equality_and_hash [where rt = example_runtime and h = example_store and a = 7 and b = 13]
      wf_example_store s e h7 by simp
  with e h7 show ?thesis using wf_example_store s by simp
qed

text \<open>
  C8. The expectation \<open>old \<noteq> new\<close> of \<open>Sub\<close> is not enforced. For every symbol \<open>x\<close>,
  \<^verbatim>\<open>Sub(x, x)\<close> succeeds and the object is of class \<open>Sub\<close>, holding \<open>x\<close> twice; its
  conditional counterpart is a \<open>ConditionalSub\<close> holding \<open>x\<close>, which is \<^verbatim>\<open>==\<close> to
  \<^verbatim>\<open>ConditionalSub(x)\<close> and not \<^verbatim>\<open>==\<close> to \<^verbatim>\<open>ConditionalCopy()\<close>.
\<close>

theorem Sub_with_equal_symbols:
  "\<exists>a h1 r h2 b h3 c h4.
      construct rt h Sub [x, x] = Inr (a, h1) \<and>
      deref h1 a = Inr \<lparr>ocls = Sub, odict = [(''old'', x), (''new'', x)]\<rparr> \<and>
      conditional_counterpart rt h1 a = Inr (r, h2) \<and>
      deref h2 r = Inr \<lparr>ocls = ConditionalSub, odict = [(''new'', x)]\<rparr> \<and>
      construct rt h2 ConditionalSub [x] = Inr (b, h3) \<and>
      py_eq h3 r b = Inr True \<and>
      construct rt h3 ConditionalCopy [] = Inr (c, h4) \<and>
      py_eq h4 r c = Inr False \<and> py_eq h4 c r = Inr False"
  by (simp add: run_defs)



text \<open>
  C10. \<open>Copy\<close> is declared as a subclass of \<open>Sub\<close>, and equality still separates
  the two. For every symbol \<open>x\<close> with \<^verbatim>\<open>x == x\<close>, \<^verbatim>\<open>Copy(x, x)\<close> and
  \<^verbatim>\<open>Sub(x, x)\<close> hold the same fields and have the same hash, and they are not
  \<^verbatim>\<open>==\<close> in either order, so they are different keys of a dict and different
  members of a set. The reason is general: in any store, two objects of different
  classes are never \<^verbatim>\<open>==\<close>.
\<close>

theorem Copy_not_equal_Sub:
  "(val_eq x x \<longrightarrow>
     (\<exists>a h1 b h2 n.
        construct rt h Copy [x, x] = Inr (a, h1) \<and>
        construct rt h1 Sub [x, x] = Inr (b, h2) \<and>
        ocls (h2 ! a) = Copy \<and> ocls (h2 ! b) = Sub \<and> odict (h2 ! a) = odict (h2 ! b) \<and>
        py_eq h2 a b = Inr False \<and> py_eq h2 b a = Inr False \<and>
        py_hash rt h2 a = Inr n \<and> py_hash rt h2 b = Inr n \<and>
        same_key rt h2 a b = Inr False \<and> same_key rt h2 b a = Inr False)) \<and>
   (a < length h \<and> b < length h \<and> ocls (h ! a) \<noteq> ocls (h ! b) \<longrightarrow>
      py_eq h a b = Inr False \<and> py_eq h b a = Inr False)"
proof (intro conjI impI)
  assume "val_eq x x"
  then show "\<exists>a h1 b h2 n.
      construct rt h Copy [x, x] = Inr (a, h1) \<and>
      construct rt h1 Sub [x, x] = Inr (b, h2) \<and>
      ocls (h2 ! a) = Copy \<and> ocls (h2 ! b) = Sub \<and> odict (h2 ! a) = odict (h2 ! b) \<and>
      py_eq h2 a b = Inr False \<and> py_eq h2 b a = Inr False \<and>
      py_hash rt h2 a = Inr n \<and> py_hash rt h2 b = Inr n \<and>
      same_key rt h2 a b = Inr False \<and> same_key rt h2 b a = Inr False"
    by (simp add: run_defs same_key_def py_hash_def dataclass_hash_def val_ne_def)
next
  assume a: "a < length h \<and> b < length h \<and> ocls (h ! a) \<noteq> ocls (h ! b)"
  then show "py_eq h a b = Inr False"
    by (intro py_eq_other_class) simp_all
  from a show "py_eq h b a = Inr False"
    by (intro py_eq_other_class) auto
qed

theorem Copy_not_equal_Sub_witness:
  "val_eq (PyStr ''a'') (PyStr ''a'' :: nat pyval) \<and>
   (\<exists>a h1 b h2 n.
      construct example_runtime [] Copy [PyStr ''a'', PyStr ''a''] = Inr (a, h1) \<and>
      construct example_runtime h1 Sub [PyStr ''a'', PyStr ''a''] = Inr (b, h2) \<and>
      ocls (h2 ! a) = Copy \<and> ocls (h2 ! b) = Sub \<and> odict (h2 ! a) = odict (h2 ! b) \<and>
      py_eq h2 a b = Inr False \<and> py_eq h2 b a = Inr False \<and>
      py_hash example_runtime h2 a = Inr n \<and> py_hash example_runtime h2 b = Inr n \<and>
      same_key example_runtime h2 a b = Inr False \<and> same_key example_runtime h2 b a = Inr False) \<and>
   8 < length example_store \<and> 15 < length example_store \<and>
   example_store ! 8 = \<lparr>ocls = Copy, odict = [(''old'', PyStr ''a''), (''new'', PyStr ''a'')]\<rparr> \<and>
   example_store ! 15 = \<lparr>ocls = Sub, odict = [(''old'', PyStr ''a''), (''new'', PyStr ''a'')]\<rparr> \<and>
   ocls (example_store ! 8) \<noteq> ocls (example_store ! 15) \<and>
   py_eq example_store 8 15 = Inr False \<and> py_eq example_store 15 8 = Inr False"
proof -
  have v: "val_eq (PyStr ''a'') (PyStr ''a'' :: nat pyval)"
    by (simp add: val_eq_def)
  have s: "8 < length example_store" "15 < length example_store"
      "example_store ! 8 = \<lparr>ocls = Copy, odict = [(''old'', PyStr ''a''), (''new'', PyStr ''a'')]\<rparr>"
      "example_store ! 15 = \<lparr>ocls = Sub, odict = [(''old'', PyStr ''a''), (''new'', PyStr ''a'')]\<rparr>"
    by (simp_all add: example_store_def)
  then have ne: "ocls (example_store ! 8) \<noteq> ocls (example_store ! 15)"
    by simp
  note c1 = Copy_not_equal_Sub [where x = "PyStr ''a''" and rt = example_runtime and h = "[]",
      THEN conjunct1, rule_format, OF v]
  have c2: "py_eq example_store 8 15 = Inr False \<and> py_eq example_store 15 8 = Inr False"
    using Copy_not_equal_Sub [where h = example_store and a = 8 and b = 15] s(1,2) ne by blast
  from v c1 s ne c2 show ?thesis by (intro conjI) simp_all
qed

end
